theory Spec2Isabelle
  imports Main
begin

section \<open>Data model\<close>

text \<open>
  Values that travel to and from the content service. Object literals of the source whose
  keys are computed (\<open>{ [locale]: v }\<close>) or spread (\<open>{ ...value }\<close>) are association
  lists in key order; \<open>JStream\<close> stands for the read stream opened on a local file.
\<close>

datatype json = JString string | JStream string | JObject "(string \<times> json) list"

text \<open>\<open>{ sys: { type, linkType, id } }\<close>: a link to a tag, an entry or an asset.\<close>

record link =
  ltype :: string
  linkType :: string
  lid :: string

text \<open>\<open>{ sys: { type, id, version, linkType } }\<close>: a link as the bulk publish payload has it.\<close>

record versioned_link =
  vtype :: string
  vid :: string
  vversion :: nat
  vlinkType :: string

record sys_props =
  sys_id :: string
  sys_version :: nat
  sys_type :: string

record metadata =
  tags :: "link list"

text \<open>
  \<open>AssetProps | EntryProps\<close>: the source reads \<open>sys.id\<close>, \<open>sys.version\<close>, \<open>sys.type\<close> and
  writes \<open>metadata\<close>; everything else is carried along unread.
\<close>

record item =
  sys :: sys_props
  item_fields :: "(string \<times> json) list"
  metadata :: "metadata option"

text \<open>\<open>CreateEntryProps\<close> as \<open>createEntry\<close> builds it: fields and metadata.\<close>

record create_entry_props =
  ce_fields :: "(string \<times> json) list"
  ce_metadata :: metadata

text \<open>The object handed to \<open>asset.create\<close> and \<open>asset.createFromFiles\<close>: fields only.\<close>

record create_asset_props =
  ca_fields :: "(string \<times> json) list"

text \<open>
  \<open>AssetMeta\<close> is declared in the module \<open>./model\<close>; the facade reads these four
  properties of it and \<open>createTestEntry\<close> supplies exactly these four.
\<close>

record asset_meta =
  meta_title :: string
  meta_description :: string
  meta_contentType :: string
  meta_fileName :: string

text \<open>\<open>{ entities: { sys: { type }, items } }\<close>\<close>

record 'l bulk_payload =
  entities_sys_type :: string
  entities_items :: "'l list"

record bulk_params =
  spaceId :: string
  environmentId :: string

datatype bulk_action = BulkAction string

datatype error = ApiError string

section \<open>The vendor client and the trace of remote calls\<close>

text \<open>
  Every call of the source on \<open>client\<close> is a request; the trace of a run lists the
  requests in the order they are issued, each with the outcome of its promise.
\<close>

datatype request =
    EntryGetMany "(string \<times> string) list"
  | AssetGetMany "(string \<times> string) list"
  | EntryDelete string
  | AssetDelete string
  | EntryCreate string create_entry_props
  | AssetCreateFromFiles create_asset_props
  | AssetCreate create_asset_props
  | AssetUpdate string item
  | AssetProcessForAllLocales item
  | BulkPublish bulk_params "versioned_link bulk_payload"
  | BulkUnpublish bulk_params "link bulk_payload"

datatype response =
    Rejected error
  | Items "item list"
  | Item item
  | Deleted
  | Bulk bulk_action

type_synonym event = "request \<times> response"

text \<open>
  The client is the vendor's: its answers are parameters of the model. \<open>'x\<close> is the state
  of everything outside the process (the remote space, the random generators).
\<close>

record 'x client =
  entry_getMany :: "(string \<times> string) list \<Rightarrow> 'x \<Rightarrow> (error + item list) \<times> 'x"
  asset_getMany :: "(string \<times> string) list \<Rightarrow> 'x \<Rightarrow> (error + item list) \<times> 'x"
  entry_delete :: "string \<Rightarrow> 'x \<Rightarrow> (error + unit) \<times> 'x"
  asset_delete :: "string \<Rightarrow> 'x \<Rightarrow> (error + unit) \<times> 'x"
  entry_create :: "string \<Rightarrow> create_entry_props \<Rightarrow> 'x \<Rightarrow> (error + item) \<times> 'x"
  asset_createFromFiles :: "create_asset_props \<Rightarrow> 'x \<Rightarrow> (error + item) \<times> 'x"
  asset_create :: "create_asset_props \<Rightarrow> 'x \<Rightarrow> (error + item) \<times> 'x"
  asset_update :: "string \<Rightarrow> item \<Rightarrow> 'x \<Rightarrow> (error + item) \<times> 'x"
  asset_processForAllLocales :: "item \<Rightarrow> 'x \<Rightarrow> (error + item) \<times> 'x"
  bulkAction_publish ::
    "bulk_params \<Rightarrow> versioned_link bulk_payload \<Rightarrow> 'x \<Rightarrow> (error + bulk_action) \<times> 'x"
  bulkAction_unpublish ::
    "bulk_params \<Rightarrow> link bulk_payload \<Rightarrow> 'x \<Rightarrow> (error + bulk_action) \<times> 'x"

text \<open>The generators of \<open>@faker-js/faker\<close> that \<open>createTestEntry\<close> calls.\<close>

record 'x faker =
  company_name :: "'x \<Rightarrow> string \<times> 'x"
  address_streetAddress :: "'x \<Rightarrow> string \<times> 'x"
  address_city :: "'x \<Rightarrow> string \<times> 'x"
  address_county :: "'x \<Rightarrow> string \<times> 'x"
  address_zipCode :: "'x \<Rightarrow> string \<times> 'x"

text \<open>
  What the modules import from outside the repository: the client, faker, the two lodash
  string functions and the environment variable \<open>CONTENTFUL_SPACE_ID\<close>.
\<close>

record 'x env =
  client :: "'x client"
  faker :: "'x faker"
  snakeCase :: "string \<Rightarrow> string"
  kebabCase :: "string \<Rightarrow> string"
  SPACE_ID :: string

text \<open>
  An asynchronous function: from the outside state to its outcome (\<open>Inl\<close> a rejection),
  the new outside state and the requests it issued. Calls of \<open>logger\<close> touch neither the
  client nor the outcome and are left out.
\<close>

type_synonym ('x, 'a) io = "'x \<Rightarrow> (error + 'a) \<times> 'x \<times> event list"

definition io_return :: "'a \<Rightarrow> ('x, 'a) io" where
  "io_return a x = (Inr a, x, [])"

text \<open>\<open>const a = await m; f(a)\<close>: a rejection of \<open>m\<close> ends the enclosing function.\<close>

definition io_bind :: "('x, 'a) io \<Rightarrow> ('a \<Rightarrow> ('x, 'b) io) \<Rightarrow> ('x, 'b) io" where
  "io_bind m f x =
     (case m x of
        (Inl e, x1, t1) \<Rightarrow> (Inl e, x1, t1)
      | (Inr a, x1, t1) \<Rightarrow> (case f a x1 of (r, x2, t2) \<Rightarrow> (r, x2, t1 @ t2)))"

text \<open>A call of a generator: no request, no failure.\<close>

definition io_gen :: "('x \<Rightarrow> 'a \<times> 'x) \<Rightarrow> ('x, 'a) io" where
  "io_gen g x = (case g x of (a, x1) \<Rightarrow> (Inr a, x1, []))"

text \<open>One call on the client: the request is recorded with its outcome.\<close>

definition remote :: "request \<Rightarrow> ('a \<Rightarrow> response) \<Rightarrow> ('x \<Rightarrow> (error + 'a) \<times> 'x) \<Rightarrow> ('x, 'a) io" where
  "remote rq shown f x =
     (case f x of
        (Inl e, x1) \<Rightarrow> (Inl e, x1, [(rq, Rejected e)])
      | (Inr a, x1) \<Rightarrow> (Inr a, x1, [(rq, shown a)]))"

text \<open>
  \<open>Promise.all(xs.map(f))\<close>: \<open>map\<close> starts every call, in list order, whatever the others
  answer; the join is fulfilled with all results when none is rejected and rejected
  otherwise. The model lets the requests take effect in the order they are issued and
  reports the first rejection in that order.
\<close>

fun issue_all :: "('a \<Rightarrow> ('x, 'b) io) \<Rightarrow> 'a list \<Rightarrow> 'x \<Rightarrow> (error + 'b) list \<times> 'x \<times> event list" where
  "issue_all f [] x = ([], x, [])"
| "issue_all f (a # as) x =
     (case f a x of (r, x1, t1) \<Rightarrow>
        (case issue_all f as x1 of (rs, x2, t2) \<Rightarrow> (r # rs, x2, t1 @ t2)))"

fun join_all :: "(error + 'b) list \<Rightarrow> error + 'b list" where
  "join_all [] = Inr []"
| "join_all (Inl e # rs) = Inl e"
| "join_all (Inr b # rs) = (case join_all rs of Inl e \<Rightarrow> Inl e | Inr bs \<Rightarrow> Inr (b # bs))"

definition promise_all :: "('a \<Rightarrow> ('x, 'b) io) \<Rightarrow> 'a list \<Rightarrow> ('x, 'b list) io" where
  "promise_all f as x = (case issue_all f as x of (rs, x1, t) \<Rightarrow> (join_all rs, x1, t))"

definition outcome :: "(error + 'a) \<times> 'x \<times> event list \<Rightarrow> error + 'a" where
  "outcome r = fst r"

definition trace :: "(error + 'a) \<times> 'x \<times> event list \<Rightarrow> event list" where
  "trace r = snd (snd r)"

section \<open>Access module for Contentful\<close>

definition tag_link :: "string \<Rightarrow> link" where
  "tag_link tg = \<lparr>ltype = ''Link'', linkType = ''Tag'', lid = tg\<rparr>"

definition tag_query :: "string \<Rightarrow> (string \<times> string) list" where
  "tag_query tg = [(''select'', ''sys.id''), (''metadata.tags.sys.id[all]'', tg)]"

definition findTaggedEntries :: "'x env \<Rightarrow> string \<Rightarrow> ('x, string list) io" where
  "findTaggedEntries env tg =
     io_bind (remote (EntryGetMany (tag_query tg)) Items (entry_getMany (client env) (tag_query tg)))
       (\<lambda>result. io_return (map (\<lambda>entry. sys_id (sys entry)) result))"

definition findTaggedAssets :: "'x env \<Rightarrow> string \<Rightarrow> ('x, string list) io" where
  "findTaggedAssets env tg =
     io_bind (remote (AssetGetMany (tag_query tg)) Items (asset_getMany (client env) (tag_query tg)))
       (\<lambda>result. io_return (map (\<lambda>entry. sys_id (sys entry)) result))"

definition deleteEntries :: "'x env \<Rightarrow> string list \<Rightarrow> ('x, unit list) io" where
  "deleteEntries env ids =
     promise_all (\<lambda>i. remote (EntryDelete i) (\<lambda>_. Deleted) (entry_delete (client env) i)) ids"

definition deleteAssets :: "'x env \<Rightarrow> string list \<Rightarrow> ('x, unit list) io" where
  "deleteAssets env ids =
     promise_all (\<lambda>i. remote (AssetDelete i) (\<lambda>_. Deleted) (asset_delete (client env) i)) ids"

definition createEntry :: "'x env \<Rightarrow> string \<Rightarrow> (string \<times> json) list \<Rightarrow> string \<Rightarrow> ('x, item) io" where
  "createEntry env contentTypeId val tg =
     (let entry = \<lparr>ce_fields = val, ce_metadata = \<lparr>tags = [tag_link tg]\<rparr>\<rparr>
      in remote (EntryCreate contentTypeId entry) Item (entry_create (client env) contentTypeId entry))"

text \<open>
  \<open>tagAsset\<close> assigns \<open>asset.metadata\<close> in place and sends the asset to \<open>asset.update\<close>; its
  callers do not read their \<open>asset\<close> again.
\<close>

definition tagAsset :: "'x env \<Rightarrow> item \<Rightarrow> string \<Rightarrow> ('x, item) io" where
  "tagAsset env asset tg =
     (let asset1 = asset\<lparr>metadata := Some \<lparr>tags = [tag_link tg]\<rparr>\<rparr>
      in remote (AssetUpdate (sys_id (sys asset1)) asset1) Item
           (asset_update (client env) (sys_id (sys asset1)) asset1))"



text \<open>\<open>`${width}`\<close> for the whole numbers the source passes: decimal digits.\<close>

fun show_nat :: "nat \<Rightarrow> string" where
  "show_nat n =
     (if n < 10 then [''0123456789'' ! n]
      else show_nat (n div 10) @ [''0123456789'' ! (n mod 10)])"

declare show_nat.simps [simp del]

definition picsum_props :: "asset_meta \<Rightarrow> nat \<Rightarrow> nat \<Rightarrow> string \<Rightarrow> create_asset_props" where
  "picsum_props meta width height locale =
     \<lparr>ca_fields =
        [(''title'', JObject [(locale, JString (meta_title meta))]),
         (''description'', JObject [(locale, JString (meta_description meta))]),
         (''file'', JObject [(locale, JObject
            [(''contentType'', JString (meta_contentType meta)),
             (''fileName'', JString (meta_fileName meta)),
             (''upload'', JString (''https://picsum.photos/'' @ show_nat width @ ''/''
                                    @ show_nat height))])])]\<rparr>"

definition createAssetFromPicsum ::
  "'x env \<Rightarrow> asset_meta \<Rightarrow> nat \<Rightarrow> nat \<Rightarrow> string \<Rightarrow> string \<Rightarrow> ('x, item) io" where
  "createAssetFromPicsum env meta width height locale tg =
     (let assetProps = picsum_props meta width height locale
      in io_bind (remote (AssetCreate assetProps) Item (asset_create (client env) assetProps))
           (\<lambda>asset. tagAsset env asset tg))"

definition processAssets :: "'x env \<Rightarrow> item list \<Rightarrow> ('x, item list) io" where
  "processAssets env as =
     promise_all (\<lambda>asset. remote (AssetProcessForAllLocales asset) Item
                            (asset_processForAllLocales (client env) asset)) as"

definition publish_link :: "item \<Rightarrow> versioned_link" where
  "publish_link it =
     \<lparr>vtype = ''Link'', vid = sys_id (sys it), vversion = sys_version (sys it),
      vlinkType = sys_type (sys it)\<rparr>"

definition master :: "'x env \<Rightarrow> bulk_params" where
  "master env = \<lparr>spaceId = SPACE_ID env, environmentId = ''master''\<rparr>"

text \<open>The result is \<open>undefined\<close> (\<open>None\<close>) on the early return.\<close>

definition publishItems :: "'x env \<Rightarrow> item list \<Rightarrow> ('x, bulk_action option) io" where
  "publishItems env its =
     (if length its = 0 then io_return None
      else
        (let payload = \<lparr>entities_sys_type = ''Array'', entities_items = map publish_link its\<rparr>
         in io_bind (remote (BulkPublish (master env) payload) Bulk
                       (bulkAction_publish (client env) (master env) payload))
              (\<lambda>b. io_return (Some b))))"

definition unpublishItems :: "'x env \<Rightarrow> string list \<Rightarrow> string \<Rightarrow> ('x, bulk_action option) io" where
  "unpublishItems env its ty =
     (if length its = 0 then io_return None
      else
        (let payload = \<lparr>entities_sys_type = ''Array'',
                        entities_items = map (\<lambda>i. \<lparr>ltype = ''Link'', linkType = ty, lid = i\<rparr>) its\<rparr>
         in io_bind (remote (BulkUnpublish (master env) payload) Bulk
                       (bulkAction_unpublish (client env) (master env) payload))
              (\<lambda>b. io_return (Some b))))"

definition unpublishEntries :: "'x env \<Rightarrow> string list \<Rightarrow> ('x, bulk_action option) io" where
  "unpublishEntries env ids = unpublishItems env ids ''Entry''"

definition unpublishAssets :: "'x env \<Rightarrow> string list \<Rightarrow> ('x, bulk_action option) io" where
  "unpublishAssets env ids = unpublishItems env ids ''Asset''"

section \<open>The setup workflow\<close>

record options =
  opt_tag :: string
  opt_locale :: string

text \<open>An object that holds both created assets and entries.\<close>

record items =
  assets :: "item list"
  entries :: "item list"

definition entity_link :: "string \<Rightarrow> string \<Rightarrow> json" where
  "entity_link lt i =
     JObject [(''sys'', JObject [(''type'', JString ''Link''), (''linkType'', JString lt),
                                (''id'', JString i)])]"

definition createTestEntry :: "'x env \<Rightarrow> string \<Rightarrow> string \<Rightarrow> ('x, items) io" where
  "createTestEntry env locale tg =
     io_bind (io_gen (company_name (faker env))) (\<lambda>name.
       let imageProps =
             \<lparr>meta_title = name @ '' featured image'',
              meta_description = ''Main image for '' @ name @ ''.'',
              meta_contentType = ''image/jpeg'',
              meta_fileName = snakeCase env name @ ''.jpg''\<rparr>
       in
       io_bind (createAssetFromPicsum env imageProps 400 225 locale tg) (\<lambda>imageAsset.
       io_bind (io_gen (address_streetAddress (faker env))) (\<lambda>street.
       io_bind (io_gen (address_city (faker env))) (\<lambda>city.
       io_bind (io_gen (address_county (faker env))) (\<lambda>county.
       io_bind (io_gen (address_zipCode (faker env))) (\<lambda>zip.
       let addressProps =
             [(''houseNumberAndStreet'', JObject [(locale, JString street)]),
              (''town'', JObject [(locale, JString city)]),
              (''county'', JObject [(locale, JString county)]),
              (''postcode'', JObject [(locale, JString zip)])]
       in
       io_bind (createEntry env ''address'' addressProps tg) (\<lambda>addressEntry.
       let articleProps =
             [(''name'', JObject [(locale, JString name)]),
              (''address'', JObject [(locale, entity_link ''Entry'' (sys_id (sys addressEntry)))]),
              (''mainImage'', JObject [(locale, entity_link ''Asset'' (sys_id (sys imageAsset)))]),
              (''slug'', JObject [(locale, JString (kebabCase env name))])]
       in
       io_bind (createEntry env ''article'' articleProps tg) (\<lambda>articleEntry.
       io_return \<lparr>assets = [imageAsset], entries = [addressEntry, articleEntry]\<rparr>))))))))"

text \<open>
  The \<open>for\<close> loop of \<open>setupCommand\<close>, by the number of iterations left; \<open>acc\<close> is
  \<open>allCreatedItems\<close>.
\<close>

fun setup_loop :: "'x env \<Rightarrow> string \<Rightarrow> string \<Rightarrow> nat \<Rightarrow> items \<Rightarrow> ('x, items) io" where
  "setup_loop env locale tg 0 acc = io_return acc"
| "setup_loop env locale tg (Suc n) acc =
     io_bind (createTestEntry env locale tg) (\<lambda>createdItems.
       setup_loop env locale tg n
         \<lparr>assets = assets acc @ assets createdItems,
          entries = entries acc @ entries createdItems\<rparr>)"

definition setupCommand :: "'x env \<Rightarrow> options \<Rightarrow> ('x, unit) io" where
  "setupCommand env opts =
     (let tg = opt_tag opts; locale = opt_locale opts
      in io_bind (setup_loop env locale tg 10 \<lparr>assets = [], entries = []\<rparr>) (\<lambda>allCreatedItems.
         io_bind (processAssets env (assets allCreatedItems)) (\<lambda>allProcessedAssets.
         io_bind (publishItems env (entries allCreatedItems @ allProcessedAssets)) (\<lambda>_.
         io_return ()))))"

section \<open>The teardown workflow\<close>

definition teardownCommand :: "'x env \<Rightarrow> options \<Rightarrow> ('x, unit) io" where
  "teardownCommand env opts =
     (let tg = opt_tag opts
      in io_bind (findTaggedEntries env tg) (\<lambda>generatedEntries.
         io_bind (findTaggedAssets env tg) (\<lambda>generatedAssets.
         io_bind (unpublishEntries env generatedEntries) (\<lambda>_.
         io_bind (unpublishAssets env generatedAssets) (\<lambda>_.
         io_bind (deleteEntries env generatedEntries) (\<lambda>_.
         io_bind (deleteAssets env generatedAssets) (\<lambda>_.
         io_return ())))))))"

section \<open>A small stand-in for the service\<close>

text \<open>
  An outside world for running the workflows on concrete inputs: the state counts the
  records made so far; a new record takes its id from the count; an update or a processing
  step bumps the version; processing the asset \<open>bad\<close> is rejected; both look-ups answer
  with the given lists.
\<close>

definition demo_item :: "string \<Rightarrow> string \<Rightarrow> nat \<Rightarrow> (string \<times> json) list \<Rightarrow> metadata option \<Rightarrow> item" where
  "demo_item ty pre n fs md =
     \<lparr>sys = \<lparr>sys_id = pre @ show_nat n, sys_version = 1, sys_type = ty\<rparr>,
      item_fields = fs, metadata = md\<rparr>"

definition bump :: "item \<Rightarrow> item" where
  "bump a = a\<lparr>sys := (sys a)\<lparr>sys_version := Suc (sys_version (sys a))\<rparr>\<rparr>"

definition demo_client :: "string \<Rightarrow> item list \<Rightarrow> item list \<Rightarrow> nat client" where
  "demo_client bad es as =
     \<lparr>entry_getMany = (\<lambda>q n. (Inr es, n)),
      asset_getMany = (\<lambda>q n. (Inr as, n)),
      entry_delete = (\<lambda>i n. (Inr (), n)),
      asset_delete = (\<lambda>i n. (Inr (), n)),
      entry_create = (\<lambda>ct p n. (Inr (demo_item ''Entry'' ''e'' n (ce_fields p) (Some (ce_metadata p))), Suc n)),
      asset_createFromFiles = (\<lambda>p n. (Inr (demo_item ''Asset'' ''a'' n (ca_fields p) None), Suc n)),
      asset_create = (\<lambda>p n. (Inr (demo_item ''Asset'' ''a'' n (ca_fields p) None), Suc n)),
      asset_update = (\<lambda>i a n. (Inr (bump a), n)),
      asset_processForAllLocales =
        (\<lambda>a n. if sys_id (sys a) = bad then (Inl (ApiError ''processing failed''), n)
                else (Inr (bump a), n)),
      bulkAction_publish = (\<lambda>p pl n. (Inr (BulkAction ''publish''), n)),
      bulkAction_unpublish = (\<lambda>p pl n. (Inr (BulkAction ''unpublish''), n))\<rparr>"

definition demo_faker :: "nat faker" where
  "demo_faker =
     \<lparr>company_name = (\<lambda>n. (''Acme '' @ show_nat n, n)),
      address_streetAddress = (\<lambda>n. (''1 High Street'', n)),
      address_city = (\<lambda>n. (''Leeds'', n)),
      address_county = (\<lambda>n. (''West Yorkshire'', n)),
      address_zipCode = (\<lambda>n. (''LS1 1AA'', n))\<rparr>"

definition demo_env :: "string \<Rightarrow> item list \<Rightarrow> item list \<Rightarrow> nat env" where
  "demo_env bad es as =
     \<lparr>client = demo_client bad es as, faker = demo_faker,
      snakeCase = (\<lambda>s. s), kebabCase = (\<lambda>s. s), SPACE_ID = ''space''\<rparr>"

definition demo_options :: options where
  "demo_options = \<lparr>opt_tag = ''demo'', opt_locale = ''en-US''\<rparr>"

section \<open>Command-line module\<close>

text \<open>
  The declarations that the module hands to \<open>commander\<close>: for each sub-command its name,
  description, options (flags, description, default value) and action handler. The
  program's own name, description and version do not reach a handler and are left out.
\<close>

record option_decl =
  od_flags :: string
  od_description :: string
  od_default :: string

datatype handler = TeardownCommand | SetupCommand

record command_decl =
  cmd_name :: string
  cmd_description :: string
  cmd_options :: "option_decl list"
  cmd_action :: handler

definition DEFAULT_TAG :: string where
  "DEFAULT_TAG = ''generated''"

definition DEFAULT_LOCALE :: string where
  "DEFAULT_LOCALE = ''en-US''"

definition program :: "command_decl list" where
  "program =
     [\<lparr>cmd_name = ''teardown'',
       cmd_description = ''Remove all previously generated test data'',
       cmd_options =
         [\<lparr>od_flags = ''-t, --tag'',
           od_description = ''id of the pre-existing tag to use to find items to delete'',
           od_default = DEFAULT_TAG\<rparr>],
       cmd_action = TeardownCommand\<rparr>,
      \<lparr>cmd_name = ''setup'',
       cmd_description = ''Add new generated test data'',
       cmd_options =
         [\<lparr>od_flags = ''-l, --locale'',
           od_description = ''locale to generate test data for'',
           od_default = DEFAULT_LOCALE\<rparr>,
          \<lparr>od_flags = ''-t, --tag'',
           od_description = ''id of the pre-existing tag to use when creating items'',
           od_default = DEFAULT_TAG\<rparr>],
       cmd_action = SetupCommand\<rparr>]"

subsection \<open>How commander reads the declarations\<close>

text \<open>
  \<open>commander\<close> is a dependency, not part of the repository; this is its documented
  behaviour for what the module declares. A flags string is split at runs of spaces,
  commas and bars into a short and a long flag. The option takes a value when the flags
  string contains \<open><\<close> (a required value) or \<open>[\<close> (an optional one); otherwise it is a
  boolean option: its flag consumes no argument, and when the flag occurs the value is
  \<open>true\<close>, not a string (\<open>OFlag\<close>). The value of an option starts as its declared
  default. The action handler of the sub-command named by the first
  argument is called with the option values; arguments that are neither flags nor values
  are operands.
\<close>

datatype optval = OStr string | OFlag

definition is_sep :: "char \<Rightarrow> bool" where
  "is_sep c = (c = CHR '' '' \<or> c = CHR '','' \<or> c = CHR ''|'')"

fun split_flags :: "string \<Rightarrow> string \<Rightarrow> string list" where
  "split_flags cur [] = (if cur = [] then [] else [cur])"
| "split_flags cur (c # cs) =
     (if is_sep c then (if cur = [] then split_flags [] cs else cur # split_flags [] cs)
      else split_flags (cur @ [c]) cs)"

record cli_option =
  co_short :: "string option"
  co_long :: "string option"
  co_required :: bool
  co_optional :: bool
  co_default :: string

definition make_option :: "option_decl \<Rightarrow> cli_option" where
  "make_option d =
     (let parts = split_flags [] (od_flags d);
          with_short = (case parts of
                          a # b # _ \<Rightarrow> \<not> (take 1 b = ''['' \<or> take 1 b = ''<'')
                        | _ \<Rightarrow> False);
          rest = (if with_short then tl parts else parts);
          lone_short = (case rest of
                          l # _ \<Rightarrow> \<not> with_short \<and> length l = 2 \<and> hd l = CHR ''-'' \<and>
                                   l ! 1 \<noteq> CHR ''-''
                        | [] \<Rightarrow> False)
      in \<lparr>co_short = (if with_short then Some (hd parts)
                      else if lone_short then Some (hd rest) else None),
          co_long = (case rest of [] \<Rightarrow> None | l # _ \<Rightarrow> if lone_short then None else Some l),
          co_required = (CHR ''<'' \<in> set (od_flags d)),
          co_optional = (CHR ''['' \<in> set (od_flags d)),
          co_default = od_default d\<rparr>)"

text \<open>The key of the option in the object the handler receives: the long flag without \<open>--\<close>.\<close>

definition option_name :: "cli_option \<Rightarrow> string" where
  "option_name co = (case co_long co of Some l \<Rightarrow> drop 2 l | None \<Rightarrow>
                       (case co_short co of Some s \<Rightarrow> drop 1 s | None \<Rightarrow> []))"

definition find_option :: "cli_option list \<Rightarrow> string \<Rightarrow> cli_option option" where
  "find_option cos arg = find (\<lambda>co. co_short co = Some arg \<or> co_long co = Some arg) cos"

definition set_value :: "string \<Rightarrow> optval \<Rightarrow> (string \<times> optval) list \<Rightarrow> (string \<times> optval) list" where
  "set_value k v vals = map (\<lambda>(k1, v1). if k1 = k then (k1, v) else (k1, v1)) vals"

text \<open>
  \<open>NoAction\<close>: an argument that starts with \<open>-\<close> and is not a declared flag on its own
  (the help flag, an unknown option, a flag joined to a value), or a required value that
  is missing: commander prints help or an error, and the handler is not called.
\<close>

datatype cli_error = NoAction string | UnknownCommand string | NoCommand

fun parse_options ::
  "cli_option list \<Rightarrow> string list \<Rightarrow> (string \<times> optval) list \<Rightarrow>
   cli_error + ((string \<times> optval) list \<times> string list)" where
  "parse_options cos [] vals = Inr (vals, [])"
| "parse_options cos (arg # args) vals =
     (if arg = ''--'' then Inr (vals, args)
      else if 1 < length arg \<and> hd arg = CHR ''-'' then
        (case find_option cos arg of
           None \<Rightarrow> Inl (NoAction arg)
         | Some co \<Rightarrow>
             if co_required co then
               (case args of
                  [] \<Rightarrow> Inl (NoAction arg)
                | v # rest \<Rightarrow> parse_options cos rest (set_value (option_name co) (OStr v) vals))
             else if co_optional co then
               (case args of
                  [] \<Rightarrow> parse_options cos [] (set_value (option_name co) OFlag vals)
                | v # rest \<Rightarrow>
                    if 1 < length v \<and> hd v = CHR ''-''
                    then parse_options cos (v # rest) (set_value (option_name co) OFlag vals)
                    else parse_options cos rest (set_value (option_name co) (OStr v) vals))
             else parse_options cos args (set_value (option_name co) OFlag vals))
      else
        (case parse_options cos args vals of
           Inl e \<Rightarrow> Inl e
         | Inr (vals1, operands) \<Rightarrow> Inr (vals1, arg # operands)))"

text \<open>\<open>program.parse()\<close> on the arguments after the script name.\<close>

definition run_program ::
  "string list \<Rightarrow> cli_error + (handler \<times> (string \<times> optval) list \<times> string list)" where
  "run_program argv =
     (case argv of
        [] \<Rightarrow> Inl NoCommand
      | c # rest \<Rightarrow>
          (case find (\<lambda>d. cmd_name d = c) program of
             None \<Rightarrow> (if take 1 c = ''-'' then Inl (NoAction c) else Inl (UnknownCommand c))
           | Some d \<Rightarrow>
               (let cos = map make_option (cmd_options d)
                in case parse_options cos rest (map (\<lambda>co. (option_name co, OStr (co_default co))) cos) of
                     Inl e \<Rightarrow> Inl e
                   | Inr (vals, operands) \<Rightarrow> Inr (cmd_action d, vals, operands))))"

section \<open>Reading a run\<close>

text \<open>The outside state a run leaves behind.\<close>

definition after :: "(error + 'a) \<times> 'x \<times> event list \<Rightarrow> 'x" where
  "after r = fst (snd r)"

text \<open>A request whose promise was fulfilled.\<close>

definition fulfilled :: "event \<Rightarrow> bool" where
  "fulfilled e = (case snd e of Rejected _ \<Rightarrow> False | _ \<Rightarrow> True)"

definition failed_processing :: "event \<Rightarrow> bool" where
  "failed_processing e =
     (case e of (AssetProcessForAllLocales _, Rejected _) \<Rightarrow> True | _ \<Rightarrow> False)"

text \<open>A request that creates an asset or an entry, or updates an asset.\<close>

definition creation :: "event \<Rightarrow> bool" where
  "creation e =
     (case fst e of
        AssetCreate _ \<Rightarrow> True | AssetUpdate _ _ \<Rightarrow> True | EntryCreate _ _ \<Rightarrow> True
      | _ \<Rightarrow> False)"

definition is_publish :: "event \<Rightarrow> bool" where
  "is_publish e = (case fst e of BulkPublish _ _ \<Rightarrow> True | _ \<Rightarrow> False)"

text \<open>The entries a run created, each with its content type, in order of creation.\<close>

definition entry_creations :: "event list \<Rightarrow> (string \<times> item) list" where
  "entry_creations t =
     concat (map (\<lambda>e. case e of (EntryCreate c _, Item it) \<Rightarrow> [(c, it)] | _ \<Rightarrow> []) t)"

text \<open>The tag lists that the entry creation requests of a run carry.\<close>

definition entry_tags :: "event list \<Rightarrow> link list list" where
  "entry_tags t =
     concat (map (\<lambda>e. case fst e of EntryCreate _ p \<Rightarrow> [tags (ce_metadata p)] | _ \<Rightarrow> []) t)"

definition created_assets :: "event list \<Rightarrow> item list" where
  "created_assets t =
     concat (map (\<lambda>e. case e of (AssetCreate _, Item it) \<Rightarrow> [it] | _ \<Rightarrow> []) t)"

text \<open>The update requests of a run (asset id and asset sent) and the assets they returned.\<close>

definition update_requests :: "event list \<Rightarrow> (string \<times> item) list" where
  "update_requests t =
     concat (map (\<lambda>e. case fst e of AssetUpdate i a \<Rightarrow> [(i, a)] | _ \<Rightarrow> []) t)"

definition updated_assets :: "event list \<Rightarrow> item list" where
  "updated_assets t =
     concat (map (\<lambda>e. case e of (AssetUpdate _ _, Item it) \<Rightarrow> [it] | _ \<Rightarrow> []) t)"

definition processing_requests :: "event list \<Rightarrow> item list" where
  "processing_requests t =
     concat (map (\<lambda>e. case fst e of AssetProcessForAllLocales a \<Rightarrow> [a] | _ \<Rightarrow> []) t)"

definition processed_assets :: "event list \<Rightarrow> item list" where
  "processed_assets t =
     concat (map (\<lambda>e. case e of (AssetProcessForAllLocales _, Item it) \<Rightarrow> [it] | _ \<Rightarrow> []) t)"

text \<open>The links of the bulk publish requests of a run.\<close>

definition published_links :: "event list \<Rightarrow> versioned_link list" where
  "published_links t =
     concat (map (\<lambda>e. case fst e of BulkPublish _ pl \<Rightarrow> entities_items pl | _ \<Rightarrow> []) t)"

text \<open>
  The phases of a teardown: the two look-ups, then unpublishing entries, unpublishing
  assets, deleting entries, deleting assets. A bulk unpublish request belongs to the phase
  of the kind its links name.
\<close>

definition phase :: "request \<Rightarrow> nat" where
  "phase rq =
     (case rq of
        EntryGetMany _ \<Rightarrow> 0
      | AssetGetMany _ \<Rightarrow> 1
      | BulkUnpublish _ pl \<Rightarrow>
          (case entities_items pl of
             [] \<Rightarrow> 6
           | l # _ \<Rightarrow> if linkType l = ''Entry'' then 2 else if linkType l = ''Asset'' then 3 else 6)
      | EntryDelete _ \<Rightarrow> 4
      | AssetDelete _ \<Rightarrow> 5
      | _ \<Rightarrow> 6)"

text \<open>
  \<open>a\<close> is issued before \<open>b\<close>: the phase of \<open>a\<close> is not after that of \<open>b\<close>, and when \<open>b\<close>
  belongs to a later phase then \<open>a\<close> had been fulfilled.
\<close>

definition in_phase_order :: "event \<Rightarrow> event \<Rightarrow> bool" where
  "in_phase_order a b =
     (phase (fst a) \<le> phase (fst b) \<and> (phase (fst a) < phase (fst b) \<longrightarrow> fulfilled a))"

definition unpublish_request :: "'x env \<Rightarrow> string \<Rightarrow> string list \<Rightarrow> request list" where
  "unpublish_request env ty ids =
     (if ids = [] then []
      else [BulkUnpublish (master env)
              \<lparr>entities_sys_type = ''Array'',
               entities_items = map (\<lambda>i. \<lparr>ltype = ''Link'', linkType = ty, lid = i\<rparr>) ids\<rparr>])"

text \<open>
  One iteration of the setup loop that went through: what was sent and what came back.
\<close>

record round =
  r_props :: create_asset_props
  r_created :: item
  r_image :: item
  r_address_fields :: "(string \<times> json) list"
  r_address :: item
  r_article_fields :: "(string \<times> json) list"
  r_article :: item

definition round_events :: "string \<Rightarrow> round \<Rightarrow> event list" where
  "round_events tg r =
     [(AssetCreate (r_props r), Item (r_created r)),
      (AssetUpdate (sys_id (sys (r_created r)))
         ((r_created r)\<lparr>metadata := Some \<lparr>tags = [tag_link tg]\<rparr>\<rparr>), Item (r_image r)),
      (EntryCreate ''address''
         \<lparr>ce_fields = r_address_fields r, ce_metadata = \<lparr>tags = [tag_link tg]\<rparr>\<rparr>,
       Item (r_address r)),
      (EntryCreate ''article''
         \<lparr>ce_fields = r_article_fields r, ce_metadata = \<lparr>tags = [tag_link tg]\<rparr>\<rparr>,
       Item (r_article r))]"

definition round_linked :: "string \<Rightarrow> round \<Rightarrow> bool" where
  "round_linked locale r =
     (map_of (r_article_fields r) ''address'' =
        Some (JObject [(locale, entity_link ''Entry'' (sys_id (sys (r_address r))))]) \<and>
      map_of (r_article_fields r) ''mainImage'' =
        Some (JObject [(locale, entity_link ''Asset'' (sys_id (sys (r_image r))))]))"

section \<open>Rules for runs\<close>

lemma run_simps [simp]:
  "outcome (a, b, c) = a" "after (a, b, c) = b" "trace (a, b, c) = c"
  by (simp_all add: outcome_def after_def trace_def)

lemma io_return_simps [simp]:
  "outcome (io_return a x) = Inr a" "after (io_return a x) = x" "trace (io_return a x) = []"
  by (simp_all add: io_return_def)

lemma io_gen_simps [simp]:
  "outcome (io_gen g x) = Inr (fst (g x))" "after (io_gen g x) = snd (g x)"
  "trace (io_gen g x) = []"
  by (simp_all add: io_gen_def split: prod.splits)

lemma remote_simps [simp]:
  "outcome (remote rq shown f x) = fst (f x)"
  "after (remote rq shown f x) = snd (f x)"
  "trace (remote rq shown f x) =
     [(rq, case fst (f x) of Inl e \<Rightarrow> Rejected e | Inr a \<Rightarrow> shown a)]"
  by (simp_all add: remote_def split: prod.splits sum.splits)

lemma io_bind_outcome:
  "outcome (io_bind m f x) =
     (case outcome (m x) of Inl e \<Rightarrow> Inl e | Inr a \<Rightarrow> outcome (f a (after (m x))))"
  by (simp add: io_bind_def split: prod.splits sum.splits)

lemma io_bind_after:
  "after (io_bind m f x) =
     (case outcome (m x) of Inl e \<Rightarrow> after (m x) | Inr a \<Rightarrow> after (f a (after (m x))))"
  by (simp add: io_bind_def split: prod.splits sum.splits)

lemma io_bind_trace:
  "trace (io_bind m f x) =
     trace (m x) @ (case outcome (m x) of Inl e \<Rightarrow> [] | Inr a \<Rightarrow> trace (f a (after (m x))))"
  by (simp add: io_bind_def split: prod.splits sum.splits)

subsection \<open>Joins\<close>

lemma join_all_Inr: "join_all rs = Inr bs \<Longrightarrow> rs = map Inr bs"
  by (induction rs arbitrary: bs rule: join_all.induct) (auto split: sum.splits)

lemma issue_all_remote:
  "issue_all (\<lambda>a. remote (R a) shown (g a)) as x = (rs, x1, t) \<Longrightarrow>
     length rs = length as \<and>
     t = map (\<lambda>(a, r). (R a, case r of Inl e \<Rightarrow> Rejected e | Inr b \<Rightarrow> shown b)) (zip as rs)"
proof (induction as arbitrary: x rs t x1)
  case Nil
  then show ?case by simp
next
  case (Cons a as)
  obtain r xa ta where h: "remote (R a) shown (g a) x = (r, xa, ta)"
    by (cases "remote (R a) shown (g a) x") auto
  obtain rs1 x2 t2 where i: "issue_all (\<lambda>a. remote (R a) shown (g a)) as xa = (rs1, x2, t2)"
    by (cases "issue_all (\<lambda>a. remote (R a) shown (g a)) as xa") auto
  from Cons.prems h i have e: "rs = r # rs1" "t = ta @ t2" by auto
  from h have "trace (remote (R a) shown (g a) x) = ta" "outcome (remote (R a) shown (g a) x) = r"
    by simp_all
  then have ta: "ta = [(R a, case r of Inl e \<Rightarrow> Rejected e | Inr b \<Rightarrow> shown b)]"
    by auto
  from Cons.IH [OF i] e ta show ?case by simp
qed

lemma promise_all_remote:
  "\<exists>rs. length rs = length as \<and>
     trace (promise_all (\<lambda>a. remote (R a) shown (g a)) as x) =
       map (\<lambda>(a, r). (R a, case r of Inl e \<Rightarrow> Rejected e | Inr b \<Rightarrow> shown b)) (zip as rs) \<and>
     outcome (promise_all (\<lambda>a. remote (R a) shown (g a)) as x) = join_all rs"
proof -
  obtain rs x1 t where i: "issue_all (\<lambda>a. remote (R a) shown (g a)) as x = (rs, x1, t)"
    by (cases "issue_all (\<lambda>a. remote (R a) shown (g a)) as x") auto
  from issue_all_remote [OF i] i show ?thesis
    by (auto simp: promise_all_def)
qed

lemma map_fst_zip_pair:
  "length as = length rs \<Longrightarrow> map (fst \<circ> (\<lambda>(a, r). (R a, S r))) (zip as rs) = map R as"
  by (induction as rs rule: list_induct2) simp_all

lemma promise_all_requests:
  "map fst (trace (promise_all (\<lambda>a. remote (R a) shown (g a)) as x)) = map R as"
proof -
  obtain rs where "length rs = length as"
    "trace (promise_all (\<lambda>a. remote (R a) shown (g a)) as x) =
       map (\<lambda>(a, r). (R a, case r of Inl e \<Rightarrow> Rejected e | Inr b \<Rightarrow> shown b)) (zip as rs)"
    using promise_all_remote [of as R shown g x] by blast
  then show ?thesis by (simp add: map_fst_zip_pair)
qed

lemma promise_all_ok:
  assumes "outcome (promise_all (\<lambda>a. remote (R a) shown (g a)) as x) = Inr bs"
  shows "length bs = length as \<and>
     trace (promise_all (\<lambda>a. remote (R a) shown (g a)) as x) =
       map (\<lambda>(a, b). (R a, shown b)) (zip as bs)"
proof -
  obtain rs where rs: "length rs = length as"
    "trace (promise_all (\<lambda>a. remote (R a) shown (g a)) as x) =
       map (\<lambda>(a, r). (R a, case r of Inl e \<Rightarrow> Rejected e | Inr b \<Rightarrow> shown b)) (zip as rs)"
    "outcome (promise_all (\<lambda>a. remote (R a) shown (g a)) as x) = join_all rs"
    using promise_all_remote [of as R shown g x] by blast
  with assms have "rs = map Inr bs" by (simp add: join_all_Inr)
  with rs show ?thesis by (simp add: zip_map2 case_prod_unfold)
qed

subsection \<open>The pieces of an iteration\<close>

lemma createEntry_trace:
  "trace (createEntry env ct v tg x) =
     [(EntryCreate ct \<lparr>ce_fields = v, ce_metadata = \<lparr>tags = [tag_link tg]\<rparr>\<rparr>,
       case outcome (createEntry env ct v tg x) of Inl e \<Rightarrow> Rejected e | Inr a \<Rightarrow> Item a)]"
  by (simp add: createEntry_def Let_def)

lemma createAssetFromPicsum_ok:
  assumes "outcome (createAssetFromPicsum env m w h l tg x) = Inr img"
  shows "\<exists>a. trace (createAssetFromPicsum env m w h l tg x) =
      [(AssetCreate (picsum_props m w h l), Item a),
       (AssetUpdate (sys_id (sys a)) (a\<lparr>metadata := Some \<lparr>tags = [tag_link tg]\<rparr>\<rparr>), Item img)]"
  using assms
  by (auto simp: createAssetFromPicsum_def Let_def io_bind_trace io_bind_outcome tagAsset_def
      split: sum.splits)

lemma round_exI:
  assumes "map_of afs ''address'' = Some (JObject [(l, entity_link ''Entry'' (sys_id (sys addr)))])"
    and "map_of afs ''mainImage'' = Some (JObject [(l, entity_link ''Asset'' (sys_id (sys img)))])"
    and "its = \<lparr>assets = [img], entries = [addr, art]\<rparr>"
  shows "\<exists>r. [(AssetCreate p, Item a),
       (AssetUpdate (sys_id (sys a)) (a\<lparr>metadata := Some \<lparr>tags = [tag_link tg]\<rparr>\<rparr>), Item img),
       (EntryCreate ''address'' \<lparr>ce_fields = ap, ce_metadata = \<lparr>tags = [tag_link tg]\<rparr>\<rparr>, Item addr),
       (EntryCreate ''article'' \<lparr>ce_fields = afs, ce_metadata = \<lparr>tags = [tag_link tg]\<rparr>\<rparr>, Item art)]
      = round_events tg r \<and> round_linked l r \<and>
      its = \<lparr>assets = [r_image r], entries = [r_address r, r_article r]\<rparr>"
  using assms
  by (intro exI [of _ "\<lparr>r_props = p, r_created = a, r_image = img, r_address_fields = ap,
        r_address = addr, r_article_fields = afs, r_article = art\<rparr>"])
     (simp add: round_events_def round_linked_def)

lemma io_bind_okE:
  assumes "outcome (io_bind m f x) = Inr b"
  obtains a x1 t1 where "m x = (Inr a, x1, t1)" "outcome (f a x1) = Inr b"
    "trace (io_bind m f x) = t1 @ trace (f a x1)"
  using assms by (cases "m x") (auto simp: io_bind_outcome io_bind_trace split: sum.splits)

lemma io_gen_run: "io_gen g x = (Inr a, x1, t) \<Longrightarrow> t = []"
  by (auto simp: io_gen_def split: prod.splits)

lemma createEntry_run:
  "createEntry env ct v tg x = (Inr a, x1, t) \<Longrightarrow>
     t = [(EntryCreate ct \<lparr>ce_fields = v, ce_metadata = \<lparr>tags = [tag_link tg]\<rparr>\<rparr>, Item a)]"
  using createEntry_trace [of env ct v tg x] by simp

lemma createAssetFromPicsum_run:
  "createAssetFromPicsum env m w h l tg x = (Inr img, x1, t) \<Longrightarrow>
     \<exists>a. t = [(AssetCreate (picsum_props m w h l), Item a),
       (AssetUpdate (sys_id (sys a)) (a\<lparr>metadata := Some \<lparr>tags = [tag_link tg]\<rparr>\<rparr>), Item img)]"
  using createAssetFromPicsum_ok [of env m w h l tg x img] by simp

lemma createTestEntry_ok:
  assumes "outcome (createTestEntry env l tg x) = Inr its"
  shows "\<exists>r. trace (createTestEntry env l tg x) = round_events tg r \<and> round_linked l r \<and>
           its = \<lparr>assets = [r_image r], entries = [r_address r, r_article r]\<rparr>"
  using assms unfolding createTestEntry_def Let_def
  apply (elim io_bind_okE)
  apply (drule io_gen_run)+
  apply (drule createEntry_run)+
  apply (drule createAssetFromPicsum_run)
  apply (erule exE)
  apply simp
  apply (rule round_exI; auto)
  done

subsection \<open>The loop\<close>

lemma io_bind_all:
  assumes "\<forall>e\<in>set (trace (m x)). P e" and "\<And>a x1. \<forall>e\<in>set (trace (f a x1)). P e"
  shows "\<forall>e\<in>set (trace (io_bind m f x)). P e"
  using assms by (auto simp: io_bind_trace split: sum.splits)

lemma createEntry_creation: "\<forall>e\<in>set (trace (createEntry env ct v tg x)). creation e"
  by (simp add: createEntry_trace creation_def)

lemma createAssetFromPicsum_creation:
  "\<forall>e\<in>set (trace (createAssetFromPicsum env m w h l tg x)). creation e"
  by (auto simp: createAssetFromPicsum_def Let_def io_bind_trace tagAsset_def creation_def
      split: sum.splits)

lemma createTestEntry_creation: "\<forall>e\<in>set (trace (createTestEntry env l tg x)). creation e"
  unfolding createTestEntry_def Let_def
  by (intro io_bind_all createEntry_creation createAssetFromPicsum_creation) simp_all

lemma setup_loop_creation: "\<forall>e\<in>set (trace (setup_loop env l tg n acc x)). creation e"
proof (induction n arbitrary: acc x)
  case 0
  then show ?case by simp
next
  case (Suc n)
  show ?case
    unfolding setup_loop.simps
    by (rule io_bind_all [OF createTestEntry_creation]) (rule Suc.IH)
qed

lemma setup_loop_ok:
  assumes "outcome (setup_loop env l tg n acc x) = Inr all"
  shows "\<exists>rs. length rs = n \<and>
     trace (setup_loop env l tg n acc x) = concat (map (round_events tg) rs) \<and>
     list_all (round_linked l) rs \<and>
     assets all = assets acc @ map r_image rs \<and>
     entries all = entries acc @ concat (map (\<lambda>r. [r_address r, r_article r]) rs)"
  using assms
proof (induction n arbitrary: acc x all)
  case 0
  then show ?case by simp
next
  case (Suc n)
  from Suc.prems obtain c x1 t1 where
    c: "createTestEntry env l tg x = (Inr c, x1, t1)"
    and o: "outcome (setup_loop env l tg n
              \<lparr>assets = assets acc @ assets c, entries = entries acc @ entries c\<rparr> x1) = Inr all"
    and t: "trace (setup_loop env l tg (Suc n) acc x) =
              t1 @ trace (setup_loop env l tg n
                \<lparr>assets = assets acc @ assets c, entries = entries acc @ entries c\<rparr> x1)"
    unfolding setup_loop.simps by (elim io_bind_okE)
  from c have "outcome (createTestEntry env l tg x) = Inr c"
    and t1: "trace (createTestEntry env l tg x) = t1" by simp_all
  from createTestEntry_ok [OF this(1)] t1 obtain r where
    r: "t1 = round_events tg r" "round_linked l r"
      "c = \<lparr>assets = [r_image r], entries = [r_address r, r_article r]\<rparr>"
    by auto
  from Suc.IH [OF o] obtain rs where
    rs: "length rs = n"
      "trace (setup_loop env l tg n
         \<lparr>assets = assets acc @ assets c, entries = entries acc @ entries c\<rparr> x1)
        = concat (map (round_events tg) rs)"
      "list_all (round_linked l) rs"
      "assets all = (assets acc @ assets c) @ map r_image rs"
      "entries all = (entries acc @ entries c) @ concat (map (\<lambda>r. [r_address r, r_article r]) rs)"
    by auto
  from t r rs show ?case
    by (intro exI [of _ "r # rs"]) (simp del: setup_loop.simps)
qed

lemma publishItems_ok:
  assumes "outcome (publishItems env its x) = Inr r" and "its \<noteq> []"
  shows "\<exists>b. trace (publishItems env its x) =
           [(BulkPublish (master env)
               \<lparr>entities_sys_type = ''Array'', entities_items = map publish_link its\<rparr>, Bulk b)]"
  using assms
  by (auto simp: publishItems_def Let_def io_bind_trace io_bind_outcome split: sum.splits)

lemma publishItems_events:
  "\<forall>e\<in>set (trace (publishItems env its x)). is_publish e"
  by (auto simp: publishItems_def Let_def io_bind_trace is_publish_def split: sum.splits)

lemma setup_ok_shape:
  assumes "outcome (setupCommand env opts x) = Inr ()"
  shows "\<exists>rs ps b. length rs = 10 \<and> length ps = 10 \<and>
     list_all (round_linked (opt_locale opts)) rs \<and>
     trace (setupCommand env opts x) =
       concat (map (round_events (opt_tag opts)) rs) @
       map (\<lambda>(a, p). (AssetProcessForAllLocales a, Item p)) (zip (map r_image rs) ps) @
       [(BulkPublish (master env)
           \<lparr>entities_sys_type = ''Array'',
            entities_items =
              map publish_link (concat (map (\<lambda>r. [r_address r, r_article r]) rs) @ ps)\<rparr>,
         Bulk b)]"
proof -
  from assms obtain all x1 t1 ps x2 t2 r x3 t3 where
    l: "setup_loop env (opt_locale opts) (opt_tag opts) 10 \<lparr>assets = [], entries = []\<rparr> x
          = (Inr all, x1, t1)"
    and p: "processAssets env (assets all) x1 = (Inr ps, x2, t2)"
    and o: "publishItems env (entries all @ ps) x2 = (Inr r, x3, t3)"
    and t: "trace (setupCommand env opts x) = t1 @ t2 @ t3"
    unfolding setupCommand_def Let_def by (elim io_bind_okE) simp
  from l have "outcome (setup_loop env (opt_locale opts) (opt_tag opts) 10
                 \<lparr>assets = [], entries = []\<rparr> x) = Inr all"
    and t1: "trace (setup_loop env (opt_locale opts) (opt_tag opts) 10
                 \<lparr>assets = [], entries = []\<rparr> x) = t1" by simp_all
  from setup_loop_ok [OF this(1)] t1 obtain rs where
    rs: "length rs = 10" "t1 = concat (map (round_events (opt_tag opts)) rs)"
      "list_all (round_linked (opt_locale opts)) rs"
      "assets all = map r_image rs"
      "entries all = concat (map (\<lambda>r. [r_address r, r_article r]) rs)"
    by auto
  from p have "outcome (processAssets env (assets all) x1) = Inr ps"
    and t2: "trace (processAssets env (assets all) x1) = t2" by simp_all
  from promise_all_ok [OF this(1) [unfolded processAssets_def]] t2
  have ps: "length ps = length (assets all)"
    "t2 = map (\<lambda>(a, p). (AssetProcessForAllLocales a, Item p)) (zip (assets all) ps)"
    by (simp_all add: processAssets_def)
  from o have o1: "outcome (publishItems env (entries all @ ps) x2) = Inr r"
    and t3: "trace (publishItems env (entries all @ ps) x2) = t3" by simp_all
  from ps rs have ne: "entries all @ ps \<noteq> []" by auto
  from publishItems_ok [OF o1 ne] obtain b where
    b: "trace (publishItems env (entries all @ ps) x2) =
           [(BulkPublish (master env)
               \<lparr>entities_sys_type = ''Array'', entities_items = map publish_link (entries all @ ps)\<rparr>,
             Bulk b)]" by blast
  from t b t3 ps rs show ?thesis
    by (intro exI [of _ rs] exI [of _ ps] exI [of _ b]) simp
qed

subsection \<open>Reading the trace of a setup run\<close>

lemma concat_map_rounds:
  "concat (map f (concat (map g rs))) = concat (map (\<lambda>r. concat (map f (g r))) rs)"
  by (induction rs) simp_all

lemma concat_map_zip_snd:
  "length as = length ps \<Longrightarrow> concat (map (\<lambda>(a, p). [h p]) (zip as ps)) = map h ps"
  by (induction as ps rule: list_induct2) simp_all

lemma concat_map_zip_fst:
  "length as = length ps \<Longrightarrow> concat (map (\<lambda>(a, p). [h a]) (zip as ps)) = map h as"
  by (induction as ps rule: list_induct2) simp_all

lemma length_concat_pairs: "length (concat (map (\<lambda>r. [a r, b r]) rs)) = 2 * length rs"
  by (induction rs) simp_all

lemma filter_concat_first:
  "(\<And>r. P (a r)) \<Longrightarrow> (\<And>r. \<not> P (b r)) \<Longrightarrow>
     filter P (concat (map (\<lambda>r. [a r, b r]) rs)) = map a rs"
  by (induction rs) simp_all

lemma filter_concat_second:
  "(\<And>r. \<not> P (a r)) \<Longrightarrow> (\<And>r. P (b r)) \<Longrightarrow>
     filter P (concat (map (\<lambda>r. [a r, b r]) rs)) = map b rs"
  by (induction rs) simp_all

lemma concat_pairs_const: "concat (map (\<lambda>r. [c, c]) rs) = replicate (2 * length rs) c"
  by (induction rs) simp_all

lemma concat_singletons: "concat (map (\<lambda>r. [h r]) rs) = map h rs"
  by (induction rs) simp_all

lemma rounds_entry_creations:
  "entry_creations (concat (map (round_events tg) rs)) =
     concat (map (\<lambda>r. [(''address'', r_address r), (''article'', r_article r)]) rs)"
  by (simp add: entry_creations_def concat_map_rounds round_events_def)

lemma rounds_entry_tags:
  "entry_tags (concat (map (round_events tg) rs)) = replicate (2 * length rs) [tag_link tg]"
  by (simp add: entry_tags_def concat_map_rounds round_events_def concat_pairs_const)

lemma rounds_created_assets:
  "created_assets (concat (map (round_events tg) rs)) = map r_created rs"
  by (simp add: created_assets_def concat_map_rounds round_events_def concat_singletons)

lemma rounds_update_requests:
  "update_requests (concat (map (round_events tg) rs)) =
     map (\<lambda>r. (sys_id (sys (r_created r)),
               (r_created r)\<lparr>metadata := Some \<lparr>tags = [tag_link tg]\<rparr>\<rparr>)) rs"
  by (simp add: update_requests_def concat_map_rounds round_events_def concat_singletons)

lemma rounds_updated_assets:
  "updated_assets (concat (map (round_events tg) rs)) = map r_image rs"
  by (simp add: updated_assets_def concat_map_rounds round_events_def concat_singletons)

lemma rounds_no_processing:
  "processing_requests (concat (map (round_events tg) rs)) = []"
  "processed_assets (concat (map (round_events tg) rs)) = []"
  "published_links (concat (map (round_events tg) rs)) = []"
  "filter is_publish (concat (map (round_events tg) rs)) = []"
  by (simp_all add: processing_requests_def processed_assets_def published_links_def
      concat_map_rounds round_events_def is_publish_def)

lemma processing_observed:
  "entry_creations (map (\<lambda>(a, p). (AssetProcessForAllLocales a, Item p)) (zip as ps)) = []"
  "entry_tags (map (\<lambda>(a, p). (AssetProcessForAllLocales a, Item p)) (zip as ps)) = []"
  "created_assets (map (\<lambda>(a, p). (AssetProcessForAllLocales a, Item p)) (zip as ps)) = []"
  "update_requests (map (\<lambda>(a, p). (AssetProcessForAllLocales a, Item p)) (zip as ps)) = []"
  "updated_assets (map (\<lambda>(a, p). (AssetProcessForAllLocales a, Item p)) (zip as ps)) = []"
  "published_links (map (\<lambda>(a, p). (AssetProcessForAllLocales a, Item p)) (zip as ps)) = []"
  "filter is_publish (map (\<lambda>(a, p). (AssetProcessForAllLocales a, Item p)) (zip as ps)) = []"
  by (simp_all add: entry_creations_def entry_tags_def created_assets_def update_requests_def
      updated_assets_def published_links_def is_publish_def comp_def case_prod_unfold
      filter_empty_conv)

lemma processing_observed_items:
  "length as = length ps \<Longrightarrow>
     processing_requests (map (\<lambda>(a, p). (AssetProcessForAllLocales a, Item p)) (zip as ps)) = as"
  "length as = length ps \<Longrightarrow>
     processed_assets (map (\<lambda>(a, p). (AssetProcessForAllLocales a, Item p)) (zip as ps)) = ps"
  using concat_map_zip_fst [of as ps "\<lambda>a. a"] concat_map_zip_snd [of as ps "\<lambda>p. p"]
  by (simp_all add: processing_requests_def processed_assets_def comp_def case_prod_unfold)

lemma observers_append:
  "entry_creations (t @ u) = entry_creations t @ entry_creations u"
  "entry_tags (t @ u) = entry_tags t @ entry_tags u"
  "created_assets (t @ u) = created_assets t @ created_assets u"
  "update_requests (t @ u) = update_requests t @ update_requests u"
  "updated_assets (t @ u) = updated_assets t @ updated_assets u"
  "processing_requests (t @ u) = processing_requests t @ processing_requests u"
  "processed_assets (t @ u) = processed_assets t @ processed_assets u"
  "published_links (t @ u) = published_links t @ published_links u"
  by (simp_all add: entry_creations_def entry_tags_def created_assets_def update_requests_def
      updated_assets_def processing_requests_def processed_assets_def published_links_def)

lemma publish_observed:
  "entry_creations [(BulkPublish p pl, r)] = []"
  "entry_tags [(BulkPublish p pl, r)] = []"
  "created_assets [(BulkPublish p pl, r)] = []"
  "update_requests [(BulkPublish p pl, r)] = []"
  "updated_assets [(BulkPublish p pl, r)] = []"
  "processing_requests [(BulkPublish p pl, r)] = []"
  "processed_assets [(BulkPublish p pl, r)] = []"
  "published_links [(BulkPublish p pl, r)] = entities_items pl"
  "is_publish (BulkPublish p pl, r)"
  by (simp_all add: entry_creations_def entry_tags_def created_assets_def update_requests_def
      updated_assets_def processing_requests_def processed_assets_def published_links_def
      is_publish_def)

lemma length_round_events: "length (round_events tg r) = 4"
  by (simp add: round_events_def)

lemma length_rounds: "length (concat (map (round_events tg) rs)) = 4 * length rs"
  by (induction rs) (simp_all add: length_round_events)

lemma nth_rounds:
  "i < length rs \<Longrightarrow> j < 4 \<Longrightarrow>
     (concat (map (round_events tg) rs) @ rest) ! (4 * i + j) = round_events tg (rs ! i) ! j"
proof (induction rs arbitrary: i)
  case Nil
  then show ?case by simp
next
  case (Cons r rs)
  show ?case
  proof (cases i)
    case 0
    with Cons.prems show ?thesis by (simp add: nth_append length_round_events)
  next
    case (Suc k)
    with Cons.prems have k: "k < length rs" by simp
    have "(round_events tg r @ concat (map (round_events tg) rs) @ rest) ! (4 + (4 * k + j))
            = (concat (map (round_events tg) rs) @ rest) ! (4 * k + j)"
      using nth_append_length_plus [of "round_events tg r" _ "4 * k + j"]
      by (simp add: length_round_events)
    with Cons.IH [OF k Cons.prems(2)] Suc show ?thesis by (simp add: add.assoc)
  qed
qed

subsection \<open>Phases of a teardown\<close>

lemma same_phase_sorted:
  "\<forall>e\<in>set t. phase (fst e) = k \<Longrightarrow> sorted_wrt in_phase_order t"
  by (induction t) (auto simp: in_phase_order_def)

lemma bind_phase:
  assumes A: "\<forall>e\<in>set (trace (m x)). phase (fst e) = k"
    and B: "\<And>a. outcome (m x) = Inr a \<Longrightarrow> \<forall>e\<in>set (trace (m x)). fulfilled e"
    and C: "\<And>a. sorted_wrt in_phase_order (trace (f a (after (m x)))) \<and>
              (\<forall>e\<in>set (trace (f a (after (m x)))). k < phase (fst e))"
  shows "sorted_wrt in_phase_order (trace (io_bind m f x)) \<and>
         (\<forall>e\<in>set (trace (io_bind m f x)). k \<le> phase (fst e))"
proof (cases "outcome (m x)")
  case (Inl e)
  then have "trace (io_bind m f x) = trace (m x)" by (simp add: io_bind_trace)
  with A same_phase_sorted [OF A] show ?thesis by simp
next
  case (Inr a)
  then have t: "trace (io_bind m f x) = trace (m x) @ trace (f a (after (m x)))"
    by (simp add: io_bind_trace)
  from A B [OF Inr] C [of a] have
    "\<forall>e1\<in>set (trace (m x)). \<forall>e2\<in>set (trace (f a (after (m x)))). in_phase_order e1 e2"
    by (auto simp: in_phase_order_def)
  with same_phase_sorted [OF A] C [of a] A show ?thesis
    unfolding t by (auto simp: sorted_wrt_append intro: less_imp_le)
qed

lemma promise_all_phase:
  assumes "\<And>a. phase (R a) = k"
  shows "\<forall>e\<in>set (trace (promise_all (\<lambda>a. remote (R a) shown (g a)) as x)). phase (fst e) = k"
proof
  fix e assume "e \<in> set (trace (promise_all (\<lambda>a. remote (R a) shown (g a)) as x))"
  then have "fst e \<in> set (map fst (trace (promise_all (\<lambda>a. remote (R a) shown (g a)) as x)))"
    by simp
  then have "fst e \<in> set (map R as)" by (simp only: promise_all_requests)
  with assms show "phase (fst e) = k" by auto
qed

lemma promise_all_fulfilled:
  assumes "\<And>a b. fulfilled (R a, shown b)"
    and "outcome (promise_all (\<lambda>a. remote (R a) shown (g a)) as x) = Inr bs"
  shows "\<forall>e\<in>set (trace (promise_all (\<lambda>a. remote (R a) shown (g a)) as x)). fulfilled e"
  using promise_all_ok [OF assms(2)] assms(1) by auto

lemma unpublishItems_phase:
  "ty = ''Entry'' \<and> k = 2 \<or> ty = ''Asset'' \<and> k = 3 \<Longrightarrow>
     \<forall>e\<in>set (trace (unpublishItems env ids ty x)). phase (fst e) = k"
  by (cases ids) (auto simp: unpublishItems_def Let_def io_bind_trace phase_def split: sum.splits)

lemma unpublishItems_fulfilled:
  "outcome (unpublishItems env ids ty x) = Inr r \<Longrightarrow>
     \<forall>e\<in>set (trace (unpublishItems env ids ty x)). fulfilled e"
  by (auto simp: unpublishItems_def Let_def io_bind_trace io_bind_outcome fulfilled_def
      split: sum.splits if_splits)

lemma unpublishItems_run:
  "unpublishItems env ids ty x = (Inr r, x1, t) \<Longrightarrow>
     map fst t = unpublish_request env ty ids \<and> list_all fulfilled t"
  using unpublishItems_fulfilled [of env ids ty x r]
  by (auto simp: unpublishItems_def Let_def io_bind_def io_return_def remote_def
      unpublish_request_def fulfilled_def split: sum.splits if_splits prod.splits)

lemma findTaggedEntries_trace:
  "\<exists>r. trace (findTaggedEntries env tg x) = [(EntryGetMany (tag_query tg), r)] \<and>
       (\<forall>ids. outcome (findTaggedEntries env tg x) = Inr ids \<longrightarrow>
          (\<exists>its. r = Items its \<and> ids = map (\<lambda>e. sys_id (sys e)) its))"
  by (auto simp: findTaggedEntries_def io_bind_trace io_bind_outcome split: sum.splits)

lemma findTaggedAssets_trace:
  "\<exists>r. trace (findTaggedAssets env tg x) = [(AssetGetMany (tag_query tg), r)] \<and>
       (\<forall>ids. outcome (findTaggedAssets env tg x) = Inr ids \<longrightarrow>
          (\<exists>its. r = Items its \<and> ids = map (\<lambda>e. sys_id (sys e)) its))"
  by (auto simp: findTaggedAssets_def io_bind_trace io_bind_outcome split: sum.splits)

lemma findTaggedEntries_run:
  "findTaggedEntries env tg x = (Inr ids, x1, t) \<Longrightarrow>
     \<exists>its. t = [(EntryGetMany (tag_query tg), Items its)] \<and> ids = map (\<lambda>e. sys_id (sys e)) its"
  using findTaggedEntries_trace [of env tg x] by auto

lemma findTaggedAssets_run:
  "findTaggedAssets env tg x = (Inr ids, x1, t) \<Longrightarrow>
     \<exists>its. t = [(AssetGetMany (tag_query tg), Items its)] \<and> ids = map (\<lambda>e. sys_id (sys e)) its"
  using findTaggedAssets_trace [of env tg x] by auto

lemma deleteEntries_run:
  "deleteEntries env ids x = (Inr r, x1, t) \<Longrightarrow>
     map fst t = map EntryDelete ids \<and> list_all fulfilled t"
  using promise_all_requests [of EntryDelete "\<lambda>_. Deleted" "entry_delete (client env)" ids x]
    promise_all_fulfilled [of EntryDelete "\<lambda>_. Deleted" "entry_delete (client env)" ids x r]
  by (simp add: deleteEntries_def fulfilled_def list_all_iff)

lemma deleteAssets_run:
  "deleteAssets env ids x = (Inr r, x1, t) \<Longrightarrow>
     map fst t = map AssetDelete ids \<and> list_all fulfilled t"
  using promise_all_requests [of AssetDelete "\<lambda>_. Deleted" "asset_delete (client env)" ids x]
    promise_all_fulfilled [of AssetDelete "\<lambda>_. Deleted" "asset_delete (client env)" ids x r]
  by (simp add: deleteAssets_def fulfilled_def list_all_iff)

lemma teardown_sorted:
  "sorted_wrt in_phase_order (trace (teardownCommand env opts x))"
proof -
  let ?tg = "opt_tag opts"
  let ?f5 = "\<lambda>ga. io_bind (deleteAssets env ga) (\<lambda>_. io_return ())"
  let ?f4 = "\<lambda>ge ga. io_bind (deleteEntries env ge) (\<lambda>_. ?f5 ga)"
  let ?f3 = "\<lambda>ge ga. io_bind (unpublishAssets env ga) (\<lambda>_. ?f4 ge ga)"
  let ?f2 = "\<lambda>ge ga. io_bind (unpublishEntries env ge) (\<lambda>_. ?f3 ge ga)"
  let ?f1 = "\<lambda>ge. io_bind (findTaggedAssets env ?tg) (\<lambda>ga. ?f2 ge ga)"
  let ?f0 = "io_bind (findTaggedEntries env ?tg) (\<lambda>ge. ?f1 ge)"
  have s5: "sorted_wrt in_phase_order (trace (?f5 ga y)) \<and>
            (\<forall>e\<in>set (trace (?f5 ga y)). 5 \<le> phase (fst e))" for ga y
  proof (rule bind_phase)
    show "\<forall>e\<in>set (trace (deleteAssets env ga y)). phase (fst e) = 5"
      unfolding deleteAssets_def by (rule promise_all_phase) (simp add: phase_def)
    show "\<forall>e\<in>set (trace (deleteAssets env ga y)). fulfilled e"
      if "outcome (deleteAssets env ga y) = Inr a" for a
      using that unfolding deleteAssets_def
      by (rule promise_all_fulfilled [rotated]) (simp add: fulfilled_def)
    show "sorted_wrt in_phase_order (trace (io_return () (after (deleteAssets env ga y)))) \<and>
          (\<forall>e\<in>set (trace (io_return () (after (deleteAssets env ga y)))). 5 < phase (fst e))"
      for a :: "unit list"
      by simp
  qed
  have s4: "sorted_wrt in_phase_order (trace (?f4 ge ga y)) \<and>
            (\<forall>e\<in>set (trace (?f4 ge ga y)). 4 \<le> phase (fst e))" for ge ga y
  proof (rule bind_phase)
    show "\<forall>e\<in>set (trace (deleteEntries env ge y)). phase (fst e) = 4"
      unfolding deleteEntries_def by (rule promise_all_phase) (simp add: phase_def)
    show "\<forall>e\<in>set (trace (deleteEntries env ge y)). fulfilled e"
      if "outcome (deleteEntries env ge y) = Inr a" for a
      using that unfolding deleteEntries_def
      by (rule promise_all_fulfilled [rotated]) (simp add: fulfilled_def)
    show "sorted_wrt in_phase_order (trace (?f5 ga (after (deleteEntries env ge y)))) \<and>
          (\<forall>e\<in>set (trace (?f5 ga (after (deleteEntries env ge y)))). 4 < phase (fst e))" for a :: "unit list"
      using s5 [where ga = ga and y = "after (deleteEntries env ge y)"] by auto
  qed
  have s3: "sorted_wrt in_phase_order (trace (?f3 ge ga y)) \<and>
            (\<forall>e\<in>set (trace (?f3 ge ga y)). 3 \<le> phase (fst e))" for ge ga y
  proof (rule bind_phase)
    show "\<forall>e\<in>set (trace (unpublishAssets env ga y)). phase (fst e) = 3"
      unfolding unpublishAssets_def by (rule unpublishItems_phase) simp
    show "\<forall>e\<in>set (trace (unpublishAssets env ga y)). fulfilled e"
      if "outcome (unpublishAssets env ga y) = Inr a" for a
      using that unfolding unpublishAssets_def by (rule unpublishItems_fulfilled)
    show "sorted_wrt in_phase_order (trace (?f4 ge ga (after (unpublishAssets env ga y)))) \<and>
          (\<forall>e\<in>set (trace (?f4 ge ga (after (unpublishAssets env ga y)))). 3 < phase (fst e))"
      for a :: "bulk_action option"
      using s4 [where ge = ge and ga = ga and y = "after (unpublishAssets env ga y)"] by auto
  qed
  have s2: "sorted_wrt in_phase_order (trace (?f2 ge ga y)) \<and>
            (\<forall>e\<in>set (trace (?f2 ge ga y)). 2 \<le> phase (fst e))" for ge ga y
  proof (rule bind_phase)
    show "\<forall>e\<in>set (trace (unpublishEntries env ge y)). phase (fst e) = 2"
      unfolding unpublishEntries_def by (rule unpublishItems_phase) simp
    show "\<forall>e\<in>set (trace (unpublishEntries env ge y)). fulfilled e"
      if "outcome (unpublishEntries env ge y) = Inr a" for a
      using that unfolding unpublishEntries_def by (rule unpublishItems_fulfilled)
    show "sorted_wrt in_phase_order (trace (?f3 ge ga (after (unpublishEntries env ge y)))) \<and>
          (\<forall>e\<in>set (trace (?f3 ge ga (after (unpublishEntries env ge y)))). 2 < phase (fst e))"
      for a :: "bulk_action option"
      using s3 [where ge = ge and ga = ga and y = "after (unpublishEntries env ge y)"] by auto
  qed
  have s1: "sorted_wrt in_phase_order (trace (?f1 ge y)) \<and>
            (\<forall>e\<in>set (trace (?f1 ge y)). 1 \<le> phase (fst e))" for ge y
  proof (rule bind_phase)
    show "\<forall>e\<in>set (trace (findTaggedAssets env ?tg y)). phase (fst e) = 1"
      using findTaggedAssets_trace [of env ?tg y] by (auto simp: phase_def)
    show "\<forall>e\<in>set (trace (findTaggedAssets env ?tg y)). fulfilled e"
      if "outcome (findTaggedAssets env ?tg y) = Inr a" for a
      using that findTaggedAssets_trace [of env ?tg y] by (auto simp: fulfilled_def)
    show "sorted_wrt in_phase_order (trace (?f2 ge a (after (findTaggedAssets env ?tg y)))) \<and>
          (\<forall>e\<in>set (trace (?f2 ge a (after (findTaggedAssets env ?tg y)))). 1 < phase (fst e))"
      for a
      using s2 [where ge = ge and ga = a and y = "after (findTaggedAssets env ?tg y)"] by auto
  qed
  have s0: "sorted_wrt in_phase_order (trace (?f0 x)) \<and>
            (\<forall>e\<in>set (trace (?f0 x)). 0 \<le> phase (fst e))"
  proof (rule bind_phase)
    show "\<forall>e\<in>set (trace (findTaggedEntries env ?tg x)). phase (fst e) = 0"
      using findTaggedEntries_trace [of env ?tg x] by (auto simp: phase_def)
    show "\<forall>e\<in>set (trace (findTaggedEntries env ?tg x)). fulfilled e"
      if "outcome (findTaggedEntries env ?tg x) = Inr a" for a
      using that findTaggedEntries_trace [of env ?tg x] by (auto simp: fulfilled_def)
    show "sorted_wrt in_phase_order (trace (?f1 a (after (findTaggedEntries env ?tg x)))) \<and>
          (\<forall>e\<in>set (trace (?f1 a (after (findTaggedEntries env ?tg x)))). 0 < phase (fst e))"
      for a
      using s1 [where ge = a and y = "after (findTaggedEntries env ?tg x)"] by auto
  qed
  then show ?thesis by (simp add: teardownCommand_def Let_def)
qed

lemma teardown_ok_shape:
  assumes "outcome (teardownCommand env opts x) = Inr ()"
  shows "\<exists>es as rest.
      trace (teardownCommand env opts x) =
        (EntryGetMany (tag_query (opt_tag opts)), Items es) #
        (AssetGetMany (tag_query (opt_tag opts)), Items as) # rest \<and>
      map fst rest =
        unpublish_request env ''Entry'' (map (\<lambda>e. sys_id (sys e)) es) @
        unpublish_request env ''Asset'' (map (\<lambda>e. sys_id (sys e)) as) @
        map EntryDelete (map (\<lambda>e. sys_id (sys e)) es) @
        map AssetDelete (map (\<lambda>e. sys_id (sys e)) as) \<and>
      list_all fulfilled rest"
  using assms unfolding teardownCommand_def Let_def unpublishEntries_def unpublishAssets_def
  apply (elim io_bind_okE)
  apply (drule findTaggedEntries_run findTaggedAssets_run unpublishItems_run deleteEntries_run
      deleteAssets_run)+
  apply auto
  done

lemmas demo_defs = demo_env_def demo_client_def demo_faker_def demo_item_def bump_def
  demo_options_def

section \<open>The facade: single calls\<close>

text \<open>
  Claim C4. On the empty list \<open>publishItems\<close> and \<open>unpublishItems\<close> return at once:
  the outcome is fulfilled (with \<open>undefined\<close>), the outside state is untouched and the
  trace is empty, so no bulk request is issued. On a non-empty list the trace is one single
  bulk request.
\<close>

theorem empty_bulk_is_noop:
  "publishItems env [] x = (Inr None, x, []) \<and>
   unpublishItems env [] ty x = (Inr None, x, []) \<and>
   (its \<noteq> [] \<longrightarrow> (\<exists>pl r. trace (publishItems env its x) = [(BulkPublish (master env) pl, r)])) \<and>
   (ids \<noteq> [] \<longrightarrow> (\<exists>pl r. trace (unpublishItems env ids ty x) = [(BulkUnpublish (master env) pl, r)]))"
  by (simp add: publishItems_def unpublishItems_def io_return_def io_bind_trace Let_def
      split: sum.splits)

theorem empty_bulk_is_noop_witness:
  "[demo_item ''Entry'' ''e'' 0 [] None] \<noteq> [] \<and> [''e0''] \<noteq> [] \<and>
   publishItems (demo_env [] [] []) [] (0::nat) = (Inr None, 0, []) \<and>
   unpublishItems (demo_env [] [] []) [] ''Entry'' (0::nat) = (Inr None, 0, []) \<and>
   (\<exists>pl r. trace (publishItems (demo_env [] [] []) [demo_item ''Entry'' ''e'' 0 [] None] 0)
             = [(BulkPublish (master (demo_env [] [] [])) pl, r)]) \<and>
   (\<exists>pl r. trace (unpublishItems (demo_env [] [] []) [''e0''] ''Entry'' 0)
             = [(BulkUnpublish (master (demo_env [] [] [])) pl, r)])"
  using empty_bulk_is_noop [of "demo_env [] [] []" 0 "''Entry''"
      "[demo_item ''Entry'' ''e'' 0 [] None]" "[''e0'']"]
  by simp

text \<open>
  Claim C9. On a non-empty list \<open>publishItems\<close> issues exactly one bulk publish request;
  its payload has one link per input item, in the order of the input, and the link at
  position \<open>i\<close> carries the id, the version and the type of the item at position \<open>i\<close>.
\<close>

theorem publish_payload_links:
  assumes "its \<noteq> []"
  shows "\<exists>pl r. trace (publishItems env its x) = [(BulkPublish (master env) pl, r)] \<and>
     length (entities_items pl) = length its \<and>
     (\<forall>i<length its.
        vid (entities_items pl ! i) = sys_id (sys (its ! i)) \<and>
        vversion (entities_items pl ! i) = sys_version (sys (its ! i)) \<and>
        vlinkType (entities_items pl ! i) = sys_type (sys (its ! i)) \<and>
        vtype (entities_items pl ! i) = ''Link'')"
  using assms
  by (simp add: publishItems_def io_bind_trace Let_def publish_link_def split: sum.splits)

theorem publish_payload_links_witness:
  "[demo_item ''Entry'' ''e'' 0 [] None, demo_item ''Asset'' ''a'' 1 [] None] \<noteq> [] \<and>
   (\<exists>pl r. trace (publishItems (demo_env [] [] [])
                [demo_item ''Entry'' ''e'' 0 [] None, demo_item ''Asset'' ''a'' 1 [] None] (0::nat))
             = [(BulkPublish (master (demo_env [] [] [])) pl, r)] \<and>
      map vid (entities_items pl) = [''e0'', ''a1''] \<and>
      map vlinkType (entities_items pl) = [''Entry'', ''Asset''])"
proof -
  let ?its = "[demo_item ''Entry'' ''e'' 0 [] None, demo_item ''Asset'' ''a'' 1 [] None]"
  have h: "?its \<noteq> []" by simp
  obtain pl r where t: "trace (publishItems (demo_env [] [] []) ?its (0::nat))
        = [(BulkPublish (master (demo_env [] [] [])) pl, r)]"
    and n: "length (entities_items pl) = length ?its"
    and a: "\<forall>i<length ?its.
        vid (entities_items pl ! i) = sys_id (sys (?its ! i)) \<and>
        vversion (entities_items pl ! i) = sys_version (sys (?its ! i)) \<and>
        vlinkType (entities_items pl ! i) = sys_type (sys (?its ! i)) \<and>
        vtype (entities_items pl ! i) = ''Link''"
    using publish_payload_links [OF h, of "demo_env [] [] []" 0] by blast
  from n obtain l0 l1 where l: "entities_items pl = [l0, l1]"
    by (cases "entities_items pl"; cases "tl (entities_items pl)") auto
  from a have "vid l0 = ''e0'' \<and> vlinkType l0 = ''Entry''"
    unfolding l by (auto simp: demo_item_def show_nat.simps dest: spec [of _ 0])
  moreover from a have "vid l1 = ''a1'' \<and> vlinkType l1 = ''Asset''"
    unfolding l by (auto simp: demo_item_def show_nat.simps dest: spec [of _ 1])
  ultimately show ?thesis using t l by auto
qed

text \<open>
  Claim C8. When \<open>tagAsset\<close> has returned an asset \<open>a1\<close>, tagging \<open>a1\<close> again with the
  same tag sends an update whose metadata is the one-element list holding the link to that
  tag: the tags are replaced, whatever \<open>a1\<close> carried, so the payload has no second link.
\<close>

theorem retag_single_tag:
  assumes "outcome (tagAsset env a tg x) = Inr a1"
  shows "\<exists>r. trace (tagAsset env a1 tg x1) =
            [(AssetUpdate (sys_id (sys a1))
                (a1\<lparr>metadata := Some \<lparr>tags = [\<lparr>ltype = ''Link'', linkType = ''Tag'', lid = tg\<rparr>]\<rparr>\<rparr>), r)]"
  by (simp add: tagAsset_def Let_def tag_link_def)

theorem retag_single_tag_witness:
  "outcome (tagAsset (demo_env [] [] []) (demo_item ''Asset'' ''a'' 0 [] None) ''demo'' (0::nat))
     = Inr (bump ((demo_item ''Asset'' ''a'' 0 [] None)\<lparr>metadata := Some \<lparr>tags = [tag_link ''demo'']\<rparr>\<rparr>)) \<and>
   (\<exists>r. trace (tagAsset (demo_env [] [] [])
            (bump ((demo_item ''Asset'' ''a'' 0 [] None)\<lparr>metadata := Some \<lparr>tags = [tag_link ''demo'']\<rparr>\<rparr>))
            ''demo'' (0::nat)) =
      [(AssetUpdate ''a0''
         \<lparr>sys = \<lparr>sys_id = ''a0'', sys_version = 2, sys_type = ''Asset''\<rparr>, item_fields = [],
          metadata = Some \<lparr>tags = [\<lparr>ltype = ''Link'', linkType = ''Tag'', lid = ''demo''\<rparr>]\<rparr>\<rparr>, r)])"
proof -
  have h: "outcome (tagAsset (demo_env [] [] []) (demo_item ''Asset'' ''a'' 0 [] None) ''demo'' (0::nat))
     = Inr (bump ((demo_item ''Asset'' ''a'' 0 [] None)\<lparr>metadata := Some \<lparr>tags = [tag_link ''demo'']\<rparr>\<rparr>))"
    by (simp add: tagAsset_def Let_def demo_defs)
  obtain r where "trace (tagAsset (demo_env [] [] [])
            (bump ((demo_item ''Asset'' ''a'' 0 [] None)\<lparr>metadata := Some \<lparr>tags = [tag_link ''demo'']\<rparr>\<rparr>))
            ''demo'' (0::nat)) =
      [(AssetUpdate (sys_id (sys (bump ((demo_item ''Asset'' ''a'' 0 [] None)\<lparr>metadata := Some \<lparr>tags = [tag_link ''demo'']\<rparr>\<rparr>))))
         ((bump ((demo_item ''Asset'' ''a'' 0 [] None)\<lparr>metadata := Some \<lparr>tags = [tag_link ''demo'']\<rparr>\<rparr>))
            \<lparr>metadata := Some \<lparr>tags = [\<lparr>ltype = ''Link'', linkType = ''Tag'', lid = ''demo''\<rparr>]\<rparr>\<rparr>), r)]"
    using retag_single_tag [OF h, of 0] by blast
  then have "\<exists>r. trace (tagAsset (demo_env [] [] [])
            (bump ((demo_item ''Asset'' ''a'' 0 [] None)\<lparr>metadata := Some \<lparr>tags = [tag_link ''demo'']\<rparr>\<rparr>))
            ''demo'' (0::nat)) =
      [(AssetUpdate ''a0''
         \<lparr>sys = \<lparr>sys_id = ''a0'', sys_version = 2, sys_type = ''Asset''\<rparr>, item_fields = [],
          metadata = Some \<lparr>tags = [\<lparr>ltype = ''Link'', linkType = ''Tag'', lid = ''demo''\<rparr>]\<rparr>\<rparr>, r)]"
    by (simp add: bump_def demo_item_def show_nat.simps tag_link_def)
  with h show ?thesis by blast
qed


text \<open>
  Claim C10. When both look-ups of a teardown answer with the empty list, the run is
  fulfilled and its trace holds the two look-ups only: no bulk request and no delete
  request is issued.
\<close>

theorem teardown_nothing_tagged:
  assumes "entry_getMany (client env) (tag_query (opt_tag opts)) x = (Inr [], x1)"
    and "asset_getMany (client env) (tag_query (opt_tag opts)) x1 = (Inr [], x2)"
  shows "teardownCommand env opts x =
           (Inr (), x2, [(EntryGetMany (tag_query (opt_tag opts)), Items []),
                         (AssetGetMany (tag_query (opt_tag opts)), Items [])])"
  using assms
  by (simp add: teardownCommand_def findTaggedEntries_def findTaggedAssets_def
      unpublishEntries_def unpublishAssets_def unpublishItems_def deleteEntries_def
      deleteAssets_def promise_all_def io_bind_def io_return_def remote_def Let_def)

theorem teardown_nothing_tagged_witness:
  "entry_getMany (client (demo_env [] [] [])) (tag_query (opt_tag demo_options)) (0::nat) = (Inr [], 0) \<and>
   asset_getMany (client (demo_env [] [] [])) (tag_query (opt_tag demo_options)) (0::nat) = (Inr [], 0) \<and>
   teardownCommand (demo_env [] [] []) demo_options (0::nat) =
     (Inr (), 0, [(EntryGetMany (tag_query ''demo''), Items []),
                   (AssetGetMany (tag_query ''demo''), Items [])])"
proof -
  have h1: "entry_getMany (client (demo_env [] [] [])) (tag_query (opt_tag demo_options)) (0::nat) = (Inr [], 0)"
    by (simp add: demo_defs)
  have h2: "asset_getMany (client (demo_env [] [] [])) (tag_query (opt_tag demo_options)) (0::nat) = (Inr [], 0)"
    by (simp add: demo_defs)
  show ?thesis
    using h1 h2 teardown_nothing_tagged [OF h1 h2] by (simp add: demo_options_def)
qed

section \<open>The setup workflow: what a run does\<close>

text \<open>
  Claim C1, as the specification has it: a setup run ends with all 20 entries and assets
  published in the final bulk publish call. A run against the stand-in service goes
  through and its only bulk publish request links 30 items, not 20.
\<close>

theorem setup_publishes_twenty_counterexample:
  "outcome (setupCommand (demo_env ''none'' [] []) demo_options (0::nat)) = Inr () \<and>
   length (published_links (trace (setupCommand (demo_env ''none'' [] []) demo_options (0::nat)))) = 30 \<and>
   length (published_links (trace (setupCommand (demo_env ''none'' [] []) demo_options (0::nat)))) \<noteq> 20"
  by code_simp

text \<open>
  Claim C1, amended. A setup run with tag \<open>T\<close> that goes through creates exactly 20
  entries, 10 of content type \<open>address\<close> and 10 of content type \<open>article\<close>, and exactly
  10 assets. Every entry creation request carries the one-element tag list \<open>[T]\<close>; every
  created asset is sent back in an update that sets its tags to \<open>[T]\<close>, and the assets
  those updates return are the ones sent to processing. The last request of the run is its
  only bulk publish request; it links all 30 items: the 20 created entries in order of
  creation, then the 10 processed assets.
\<close>

theorem setup_creates_tags_and_publishes:
  assumes "outcome (setupCommand env opts x) = Inr ()"
  defines "t \<equiv> trace (setupCommand env opts x)"
  shows "length (filter (\<lambda>(c, _). c = ''address'') (entry_creations t)) = 10 \<and>
     length (filter (\<lambda>(c, _). c = ''article'') (entry_creations t)) = 10 \<and>
     length (entry_creations t) = 20 \<and>
     length (created_assets t) = 10 \<and>
     entry_tags t = replicate 20 [tag_link (opt_tag opts)] \<and>
     update_requests t =
       map (\<lambda>a. (sys_id (sys a), a\<lparr>metadata := Some \<lparr>tags = [tag_link (opt_tag opts)]\<rparr>\<rparr>))
         (created_assets t) \<and>
     processing_requests t = updated_assets t \<and>
     length (processed_assets t) = 10 \<and>
     (\<exists>b. last t =
        (BulkPublish (master env)
           \<lparr>entities_sys_type = ''Array'',
            entities_items = map publish_link (map snd (entry_creations t) @ processed_assets t)\<rparr>,
         Bulk b)) \<and>
     filter is_publish t = [last t] \<and>
     length (published_links t) = 30"
proof -
  obtain rs ps b where n: "length rs = 10" "length ps = 10"
    and t: "t = concat (map (round_events (opt_tag opts)) rs) @
       map (\<lambda>(a, p). (AssetProcessForAllLocales a, Item p)) (zip (map r_image rs) ps) @
       [(BulkPublish (master env)
           \<lparr>entities_sys_type = ''Array'',
            entities_items =
              map publish_link (concat (map (\<lambda>r. [r_address r, r_article r]) rs) @ ps)\<rparr>,
         Bulk b)]"
    using setup_ok_shape [OF assms(1)] unfolding t_def by blast
  have ec: "entry_creations t =
      concat (map (\<lambda>r. [(''address'', r_address r), (''article'', r_article r)]) rs)"
    by (simp add: t observers_append rounds_entry_creations processing_observed publish_observed)
  have c1: "length (filter (\<lambda>(c, _). c = ''address'') (entry_creations t)) = 10"
    using n by (simp add: ec filter_concat_first)
  have c2: "length (filter (\<lambda>(c, _). c = ''article'') (entry_creations t)) = 10"
    using n by (simp add: ec filter_concat_second)
  have c3: "length (entry_creations t) = 20"
    using n by (simp add: ec length_concat_pairs)
  have ca: "created_assets t = map r_created rs"
    by (simp add: t observers_append rounds_created_assets processing_observed publish_observed)
  have c5: "entry_tags t = replicate 20 [tag_link (opt_tag opts)]"
    using n by (simp add: t observers_append rounds_entry_tags processing_observed publish_observed)
  have c6: "update_requests t =
       map (\<lambda>a. (sys_id (sys a), a\<lparr>metadata := Some \<lparr>tags = [tag_link (opt_tag opts)]\<rparr>\<rparr>))
         (created_assets t)"
    by (simp add: ca) (simp add: t observers_append rounds_update_requests processing_observed
        publish_observed)
  have pa: "processed_assets t = ps"
    using n by (simp add: t observers_append rounds_no_processing processing_observed_items
        publish_observed)
  have c7: "processing_requests t = updated_assets t"
    using n by (simp add: t observers_append rounds_no_processing processing_observed_items
        rounds_updated_assets processing_observed publish_observed)
  have se: "map snd (entry_creations t) = concat (map (\<lambda>r. [r_address r, r_article r]) rs)"
    unfolding ec by (induction rs) simp_all
  have c9: "last t =
        (BulkPublish (master env)
           \<lparr>entities_sys_type = ''Array'',
            entities_items = map publish_link (map snd (entry_creations t) @ processed_assets t)\<rparr>,
         Bulk b)"
  proof -
    have "last t =
        (BulkPublish (master env)
           \<lparr>entities_sys_type = ''Array'',
            entities_items =
              map publish_link (concat (map (\<lambda>r. [r_address r, r_article r]) rs) @ ps)\<rparr>,
         Bulk b)"
      by (simp add: t)
    then show ?thesis by (simp only: se pa)
  qed
  have c10: "filter is_publish t = [last t]"
    by (simp add: t rounds_no_processing processing_observed publish_observed)
  have c11: "length (published_links t) = 30"
    using n by (simp add: t observers_append rounds_no_processing processing_observed
        publish_observed length_concat_pairs)
  from c1 c2 c3 ca n c5 c6 c7 pa c9 c10 c11 show ?thesis by auto
qed

theorem setup_creates_tags_and_publishes_witness:
  "outcome (setupCommand (demo_env ''none'' [] []) demo_options (0::nat)) = Inr () \<and>
   length (entry_creations (trace (setupCommand (demo_env ''none'' [] []) demo_options (0::nat)))) = 20 \<and>
   length (created_assets (trace (setupCommand (demo_env ''none'' [] []) demo_options (0::nat)))) = 10 \<and>
   length (published_links (trace (setupCommand (demo_env ''none'' [] []) demo_options (0::nat)))) = 30"
proof -
  have h: "outcome (setupCommand (demo_env ''none'' [] []) demo_options (0::nat)) = Inr ()"
    by code_simp
  from setup_creates_tags_and_publishes [OF h] h show ?thesis by blast
qed

text \<open>
  Claim C7. In a setup run that goes through, the requests at positions \<open>4i\<close> to
  \<open>4i + 3\<close> of the trace are iteration \<open>i\<close>: the asset creation, the update that returns
  the tagged image asset, the creation of the address entry and the creation of the article
  entry. The \<open>address\<close> field of the article sent in iteration \<open>i\<close> holds, under the
  locale, the object \<open>{ sys: { type: 'Link', linkType: 'Entry', id } }\<close> whose \<open>id\<close> is the
  id of the address entry returned in iteration \<open>i\<close>, and its \<open>mainImage\<close> field holds the
  object \<open>{ sys: { type: 'Link', linkType: 'Asset', id } }\<close> whose \<open>id\<close> is the id of the
  image asset returned in iteration \<open>i\<close>. Both targets are among the run's
  created items: the address entry is one of the entries created, the image asset is the
  one sent to processing at position \<open>40 + i\<close>.
\<close>

theorem article_links_resolve:
  assumes "outcome (setupCommand env opts x) = Inr ()" and "i < 10"
  defines "t \<equiv> trace (setupCommand env opts x)"
  shows "\<exists>u a img ap addr afs art.
     t ! (4 * i + 1) = (AssetUpdate u a, Item img) \<and>
     t ! (4 * i + 2) = (EntryCreate ''address'' ap, Item addr) \<and>
     t ! (4 * i + 3) = (EntryCreate ''article'' afs, Item art) \<and>
     map_of (ce_fields afs) ''address'' =
       Some (JObject [(opt_locale opts,
         JObject [(''sys'', JObject [(''type'', JString ''Link''),
           (''linkType'', JString ''Entry''), (''id'', JString (sys_id (sys addr)))])])]) \<and>
     map_of (ce_fields afs) ''mainImage'' =
       Some (JObject [(opt_locale opts,
         JObject [(''sys'', JObject [(''type'', JString ''Link''),
           (''linkType'', JString ''Asset''), (''id'', JString (sys_id (sys img)))])])]) \<and>
     fst (t ! (40 + i)) = AssetProcessForAllLocales img \<and>
     addr \<in> snd ` set (entry_creations t) \<and>
     img \<in> set (updated_assets t)"
proof -
  obtain rs ps b where n: "length rs = 10" "length ps = 10"
    and li: "list_all (round_linked (opt_locale opts)) rs"
    and t: "t = concat (map (round_events (opt_tag opts)) rs) @
       map (\<lambda>(a, p). (AssetProcessForAllLocales a, Item p)) (zip (map r_image rs) ps) @
       [(BulkPublish (master env)
           \<lparr>entities_sys_type = ''Array'',
            entities_items =
              map publish_link (concat (map (\<lambda>r. [r_address r, r_article r]) rs) @ ps)\<rparr>,
         Bulk b)]"
    using setup_ok_shape [OF assms(1)] unfolding t_def by blast
  let ?r = "rs ! i"
  from assms(2) n have i: "i < length rs" "i < length ps" by simp_all
  have e1: "t ! (4 * i + 1) =
      (AssetUpdate (sys_id (sys (r_created ?r)))
         ((r_created ?r)\<lparr>metadata := Some \<lparr>tags = [tag_link (opt_tag opts)]\<rparr>\<rparr>), Item (r_image ?r))"
    unfolding t using nth_rounds [OF i(1), of 1] by (simp add: round_events_def)
  have e2: "t ! (4 * i + 2) =
      (EntryCreate ''address''
         \<lparr>ce_fields = r_address_fields ?r, ce_metadata = \<lparr>tags = [tag_link (opt_tag opts)]\<rparr>\<rparr>,
       Item (r_address ?r))"
    unfolding t using nth_rounds [OF i(1), of 2] by (simp add: round_events_def)
  have e3: "t ! (4 * i + 3) =
      (EntryCreate ''article''
         \<lparr>ce_fields = r_article_fields ?r, ce_metadata = \<lparr>tags = [tag_link (opt_tag opts)]\<rparr>\<rparr>,
       Item (r_article ?r))"
    unfolding t using nth_rounds [OF i(1), of 3] by (simp add: round_events_def)
  from li i(1) have rl: "round_linked (opt_locale opts) ?r"
    by (simp add: list_all_length)
  have "t ! (length (concat (map (round_events (opt_tag opts)) rs)) + i) =
      (map (\<lambda>(a, p). (AssetProcessForAllLocales a, Item p)) (zip (map r_image rs) ps) @
       [(BulkPublish (master env)
           \<lparr>entities_sys_type = ''Array'',
            entities_items =
              map publish_link (concat (map (\<lambda>r. [r_address r, r_article r]) rs) @ ps)\<rparr>,
         Bulk b)]) ! i"
    unfolding t by (rule nth_append_length_plus)
  with i n have e4: "fst (t ! (40 + i)) = AssetProcessForAllLocales (r_image ?r)"
    by (simp add: length_rounds nth_append)
  have "entry_creations t =
      concat (map (\<lambda>r. [(''address'', r_address r), (''article'', r_article r)]) rs)"
    by (simp add: t observers_append rounds_entry_creations processing_observed publish_observed)
  with i(1) have m1: "r_address ?r \<in> snd ` set (entry_creations t)"
    by (force simp: in_set_conv_nth)
  have "updated_assets t = map r_image rs"
    by (simp add: t observers_append rounds_updated_assets processing_observed publish_observed)
  with i(1) have m2: "r_image ?r \<in> set (updated_assets t)" by simp
  from e1 e2 e3 e4 rl m1 m2 show ?thesis
    unfolding round_linked_def entity_link_def by (auto simp del: One_nat_def)
qed

theorem article_links_resolve_witness:
  "outcome (setupCommand (demo_env ''none'' [] []) demo_options (0::nat)) = Inr () \<and> (3::nat) < 10 \<and>
   (\<exists>u a img ap addr afs art.
     trace (setupCommand (demo_env ''none'' [] []) demo_options (0::nat)) ! (4 * 3 + 3)
       = (EntryCreate ''article'' afs, Item art) \<and>
     trace (setupCommand (demo_env ''none'' [] []) demo_options (0::nat)) ! (4 * 3 + 2)
       = (EntryCreate ''address'' ap, Item addr) \<and>
     trace (setupCommand (demo_env ''none'' [] []) demo_options (0::nat)) ! (4 * 3 + 1)
       = (AssetUpdate u a, Item img) \<and>
     map_of (ce_fields afs) ''address'' =
       Some (JObject [(''en-US'',
         JObject [(''sys'', JObject [(''type'', JString ''Link''),
           (''linkType'', JString ''Entry''), (''id'', JString (sys_id (sys addr)))])])]) \<and>
     map_of (ce_fields afs) ''mainImage'' =
       Some (JObject [(''en-US'',
         JObject [(''sys'', JObject [(''type'', JString ''Link''),
           (''linkType'', JString ''Asset''), (''id'', JString (sys_id (sys img)))])])]))"
proof -
  have h: "outcome (setupCommand (demo_env ''none'' [] []) demo_options (0::nat)) = Inr ()"
    by code_simp
  have i: "(3::nat) < 10" by simp
  have l: "opt_locale demo_options = ''en-US''" by (simp add: demo_options_def)
  from article_links_resolve [OF h i, unfolded l] h i show ?thesis by blast
qed

text \<open>
  Claim C2. When the trace of a setup run holds a processing request that was rejected,
  it holds no bulk publish request, and the run is rejected: nothing is published by
  that run.
\<close>

theorem processing_failure_blocks_publish:
  assumes "list_ex failed_processing (trace (setupCommand env opts x))"
  shows "\<not> list_ex is_publish (trace (setupCommand env opts x)) \<and>
         (\<exists>e. outcome (setupCommand env opts x) = Inl e)"
proof -
  let ?loop = "setup_loop env (opt_locale opts) (opt_tag opts) 10 \<lparr>assets = [], entries = []\<rparr>"
  have cr: "\<forall>e\<in>set (trace (?loop x)). creation e" by (rule setup_loop_creation)
  have nf: "\<And>e. creation e \<Longrightarrow> \<not> failed_processing e \<and> \<not> is_publish e"
    by (auto simp: creation_def failed_processing_def is_publish_def split: request.splits prod.splits)
  show ?thesis
  proof (cases "outcome (?loop x)")
    case (Inl e)
    then have "trace (setupCommand env opts x) = trace (?loop x)"
      by (simp add: setupCommand_def Let_def io_bind_trace)
    with assms cr nf show ?thesis by (auto simp: list_ex_iff)
  next
    case (Inr all)
    let ?x1 = "after (?loop x)"
    let ?proc = "processAssets env (assets all)"
    have pr: "map fst (trace (?proc ?x1)) = map AssetProcessForAllLocales (assets all)"
      unfolding processAssets_def by (rule promise_all_requests)
    have np: "\<not> list_ex is_publish (trace (?proc ?x1))"
    proof
      assume "list_ex is_publish (trace (?proc ?x1))"
      then obtain e where "e \<in> set (trace (?proc ?x1))" "is_publish e"
        by (auto simp: list_ex_iff)
      then have "fst e \<in> set (map fst (trace (?proc ?x1)))" "is_publish e" by auto
      then show False unfolding pr by (auto simp: is_publish_def)
    qed
    show ?thesis
    proof (cases "outcome (?proc ?x1)")
      case (Inl e)
      with Inr have "trace (setupCommand env opts x) = trace (?loop x) @ trace (?proc ?x1)"
        and "outcome (setupCommand env opts x) = Inl e"
        by (simp_all add: setupCommand_def Let_def io_bind_trace io_bind_outcome)
      with cr nf np show ?thesis by (auto simp: list_ex_iff)
    next
      case ok: (Inr ps)
      from promise_all_ok [OF ok [unfolded processAssets_def]]
      have "trace (?proc ?x1) =
          map (\<lambda>(a, b). (AssetProcessForAllLocales a, Item b)) (zip (assets all) ps)"
        by (simp add: processAssets_def)
      then have nfp: "\<forall>e\<in>set (trace (?proc ?x1)). \<not> failed_processing e"
        by (auto simp: failed_processing_def)
      let ?pub = "publishItems env (entries all @ ps)"
      have "\<forall>e\<in>set (trace (?pub (after (?proc ?x1)))). is_publish e"
        by (rule publishItems_events)
      moreover have "\<And>e. is_publish e \<Longrightarrow> \<not> failed_processing e"
      proof -
        fix e :: event
        assume "is_publish e"
        then show "\<not> failed_processing e"
          by (cases e; cases "fst e") (simp_all add: is_publish_def failed_processing_def)
      qed
      ultimately have nfq: "\<forall>e\<in>set (trace (?pub (after (?proc ?x1)))). \<not> failed_processing e"
        by blast
      from Inr ok have "set (trace (setupCommand env opts x)) \<subseteq>
          set (trace (?loop x)) \<union> set (trace (?proc ?x1)) \<union> set (trace (?pub (after (?proc ?x1))))"
        by (auto simp: setupCommand_def Let_def io_bind_trace split: sum.splits)
      with cr nf nfp nfq assms show ?thesis by (auto simp: list_ex_iff)
    qed
  qed
qed

theorem processing_failure_blocks_publish_witness:
  "list_ex failed_processing (trace (setupCommand (demo_env ''a9'' [] []) demo_options (0::nat))) \<and>
   \<not> list_ex is_publish (trace (setupCommand (demo_env ''a9'' [] []) demo_options (0::nat))) \<and>
   (\<exists>e. outcome (setupCommand (demo_env ''a9'' [] []) demo_options (0::nat)) = Inl e)"
proof -
  have h: "list_ex failed_processing
             (trace (setupCommand (demo_env ''a9'' [] []) demo_options (0::nat)))"
    by code_simp
  from processing_failure_blocks_publish [OF h] h show ?thesis by blast
qed

section \<open>The teardown workflow: order of the phases\<close>

text \<open>
  Claim C3. In every teardown run the requests are issued in the order of the phases
  (look-ups, unpublish entries, unpublish assets, delete entries, delete assets), and a
  request of a later phase is issued only when every request of the earlier phases was
  fulfilled. In a run that goes through, the requests after the two look-ups are exactly:
  the bulk unpublish of all found entries, the bulk unpublish of all found assets (each left
  out when nothing was found), one delete per found entry, one delete per found asset, and
  all of them were fulfilled.
\<close>

theorem teardown_phases_in_order:
  "sorted_wrt in_phase_order (trace (teardownCommand env opts x)) \<and>
   (outcome (teardownCommand env opts x) = Inr () \<longrightarrow>
      (\<exists>es as rest.
         trace (teardownCommand env opts x) =
           (EntryGetMany (tag_query (opt_tag opts)), Items es) #
           (AssetGetMany (tag_query (opt_tag opts)), Items as) # rest \<and>
         map fst rest =
           unpublish_request env ''Entry'' (map (\<lambda>e. sys_id (sys e)) es) @
           unpublish_request env ''Asset'' (map (\<lambda>e. sys_id (sys e)) as) @
           map EntryDelete (map (\<lambda>e. sys_id (sys e)) es) @
           map AssetDelete (map (\<lambda>e. sys_id (sys e)) as) \<and>
         list_all fulfilled rest))"
  using teardown_sorted [of env opts x] teardown_ok_shape [of env opts x] by blast

theorem teardown_phases_in_order_witness:
  "outcome (teardownCommand
      (demo_env [] [demo_item ''Entry'' ''e'' 1 [] None, demo_item ''Entry'' ''e'' 2 [] None]
         [demo_item ''Asset'' ''a'' 0 [] None]) demo_options (0::nat)) = Inr () \<and>
   sorted_wrt in_phase_order (trace (teardownCommand
      (demo_env [] [demo_item ''Entry'' ''e'' 1 [] None, demo_item ''Entry'' ''e'' 2 [] None]
         [demo_item ''Asset'' ''a'' 0 [] None]) demo_options (0::nat))) \<and>
   (\<exists>es as rest.
      trace (teardownCommand
        (demo_env [] [demo_item ''Entry'' ''e'' 1 [] None, demo_item ''Entry'' ''e'' 2 [] None]
           [demo_item ''Asset'' ''a'' 0 [] None]) demo_options (0::nat)) =
        (EntryGetMany (tag_query (opt_tag demo_options)), Items es) #
        (AssetGetMany (tag_query (opt_tag demo_options)), Items as) # rest \<and>
      list_all fulfilled rest)"
proof -
  let ?env = "demo_env [] [demo_item ''Entry'' ''e'' 1 [] None, demo_item ''Entry'' ''e'' 2 [] None]
         [demo_item ''Asset'' ''a'' 0 [] None]"
  have h: "outcome (teardownCommand ?env demo_options (0::nat)) = Inr ()"
    by code_simp
  from teardown_phases_in_order [of ?env demo_options 0] h show ?thesis by blast
qed

section \<open>The command line: what the handlers receive\<close>

text \<open>
  Claim C5. The specification has the handlers receive the string given after \<open>--tag\<close> or
  \<open>--locale\<close>. The flags are declared as \<open>-t, --tag\<close> and \<open>-l, --locale\<close>, without a
  value placeholder, so commander reads them as boolean options: on
  \<open>setup --tag demo\<close> the handler receives \<open>tag\<close> as a flag that is set, not the string
  \<open>demo\<close>, which is left over as an operand; likewise for \<open>-t\<close>, for \<open>teardown\<close> and for
  \<open>--locale\<close>. Only when an option is omitted does the handler receive a string, the
  default.
\<close>

theorem cli_option_value_not_delivered:
  "run_program [''setup'', ''--tag'', ''demo''] =
     Inr (SetupCommand, [(''locale'', OStr ''en-US''), (''tag'', OFlag)], [''demo'']) \<and>
   run_program [''setup'', ''-t'', ''demo'', ''--locale'', ''fr''] =
     Inr (SetupCommand, [(''locale'', OFlag), (''tag'', OFlag)], [''demo'', ''fr'']) \<and>
   run_program [''teardown'', ''--tag'', ''demo''] =
     Inr (TeardownCommand, [(''tag'', OFlag)], [''demo'']) \<and>
   run_program [''setup''] =
     Inr (SetupCommand, [(''locale'', OStr ''en-US''), (''tag'', OStr ''generated'')], []) \<and>
   run_program [''teardown''] = Inr (TeardownCommand, [(''tag'', OStr ''generated'')], [])"
  by code_simp

end
